theory Spec2Isabelle
  imports Main "HOL-Library.Word"
begin

unbundle bit_operations_syntax

section \<open>The picture processing unit of the NES emulator (src/ppu.cpp)\<close>

text \<open>
  The class declaration of \<^verbatim>\<open>Ppu\<close> lives in the header \<^verbatim>\<open>nes.h\<close>, which is not part of
  the sources at hand. The functions below are translated from \<^verbatim>\<open>src/ppu.cpp\<close>; the
  types of the members they use are taken from the specification (sections 3 and 9) and
  from the way \<^verbatim>\<open>ppu.cpp\<close> uses them, and each such choice is marked.
\<close>

subsection \<open>Data model\<close>

type_synonym u8 = "8 word"
type_synonym u16 = "16 word"
type_synonym u32 = "32 word"

text \<open>
  Modelled from the spec: the declaration of the register union \<^verbatim>\<open>reg\<close> is missing.
  Section 3 lists the CPU-visible bytes and their bits: \<^verbatim>\<open>sysctrl\<close> (base nametable,
  auto-increment, sprite pattern half, background pattern half, sprite size, master/slave,
  NMI enable, from bit 0 upwards), \<^verbatim>\<open>dispctrl\<close> (greyscale, show-bg-left-8,
  show-sp-left-8, show-bg, show-sp, three emphasis bits), \<^verbatim>\<open>status\<close> (sprite overflow,
  sprite-0 hit, InVBlank in the upper three bits) and \<^verbatim>\<open>OAMaddr\<close>.
  \<^verbatim>\<open>reg.value\<close> is the four bytes together; the named flags are accessors on them.
\<close>

record regtype =
  sysctrl :: u8
  dispctrl :: u8
  status :: u8
  OAMaddr :: u8

definition BaseNTA :: "regtype \<Rightarrow> u8" where
  "BaseNTA r = sysctrl r AND 3"

definition Inc :: "regtype \<Rightarrow> bool" where
  "Inc r = bit (sysctrl r) 2"

definition SPaddr :: "regtype \<Rightarrow> bool" where
  "SPaddr r = bit (sysctrl r) 3"

definition BGaddr :: "regtype \<Rightarrow> bool" where
  "BGaddr r = bit (sysctrl r) 4"

definition SPsize :: "regtype \<Rightarrow> bool" where
  "SPsize r = bit (sysctrl r) 5"

definition NMIenabled :: "regtype \<Rightarrow> bool" where
  "NMIenabled r = bit (sysctrl r) 7"

definition Grayscale :: "regtype \<Rightarrow> bool" where
  "Grayscale r = bit (dispctrl r) 0"

definition ShowBG8 :: "regtype \<Rightarrow> bool" where
  "ShowBG8 r = bit (dispctrl r) 1"

definition ShowSP8 :: "regtype \<Rightarrow> bool" where
  "ShowSP8 r = bit (dispctrl r) 2"

definition ShowBG :: "regtype \<Rightarrow> bool" where
  "ShowBG r = bit (dispctrl r) 3"

definition ShowSP :: "regtype \<Rightarrow> bool" where
  "ShowSP r = bit (dispctrl r) 4"

definition ShowBGSP :: "regtype \<Rightarrow> u8" where
  "ShowBGSP r = drop_bit 3 (dispctrl r) AND 3"

definition EmpRGB :: "regtype \<Rightarrow> u8" where
  "EmpRGB r = drop_bit 5 (dispctrl r)"

definition SPoverflow :: "regtype \<Rightarrow> bool" where
  "SPoverflow r = bit (status r) 5"

definition SP0hit :: "regtype \<Rightarrow> bool" where
  "SP0hit r = bit (status r) 6"

definition InVBlank :: "regtype \<Rightarrow> bool" where
  "InVBlank r = bit (status r) 7"

definition OAMdata :: "regtype \<Rightarrow> u8" where
  "OAMdata r = OAMaddr r AND 3"

definition OAMindex :: "regtype \<Rightarrow> u8" where
  "OAMindex r = drop_bit 2 (OAMaddr r)"

text \<open>Assignment of a boolean to one of the three status flags.\<close>

definition assign_bit :: "nat \<Rightarrow> bool \<Rightarrow> u8 \<Rightarrow> u8" where
  "assign_bit n b w = (if b then set_bit n w else unset_bit n w)"

definition set_SPoverflow :: "bool \<Rightarrow> regtype \<Rightarrow> regtype" where
  "set_SPoverflow b r = r\<lparr>status := assign_bit 5 b (status r)\<rparr>"

definition set_SP0hit :: "bool \<Rightarrow> regtype \<Rightarrow> regtype" where
  "set_SP0hit b r = r\<lparr>status := assign_bit 6 b (status r)\<rparr>"

definition set_InVBlank :: "bool \<Rightarrow> regtype \<Rightarrow> regtype" where
  "set_InVBlank b r = r\<lparr>status := assign_bit 7 b (status r)\<rparr>"

text \<open>
  Modelled from the spec: the declaration of the address-latch union (the type of
  \<^verbatim>\<open>scroll\<close> and \<^verbatim>\<open>vaddr\<close>) is missing. Section 3 gives the layout of the address
  word, from the top: fine-Y (3 bits), nametable-V, nametable-H, coarse-Y (5), coarse-X (5),
  with fine-X (3 bits) kept apart from it. \<^verbatim>\<open>raw\<close> is that address word; it is held in
  16 bits (\<^verbatim>\<open>Write\<close> copies it into a \<^verbatim>\<open>uint16_t\<close>). \<^verbatim>\<open>vaddrlo\<close> is its low byte and
  \<^verbatim>\<open>vaddrhi\<close> the byte above it: \<^verbatim>\<open>Write\<close> masks the value to six bits itself before it
  stores the byte, which is how section 4.5 describes the first write to port 6.
  \<^verbatim>\<open>xscroll\<close> is the byte made of fine-X and coarse-X.
\<close>

record scrolltype =
  raw :: u16
  xfine :: "3 word"

text \<open>A bit field of \<open>n\<close> bits at position \<open>pos\<close> of the address word: read and assign.\<close>

definition field_get :: "nat \<Rightarrow> nat \<Rightarrow> u16 \<Rightarrow> u16" where
  "field_get pos n w = take_bit n (drop_bit pos w)"

definition field_set :: "nat \<Rightarrow> nat \<Rightarrow> u16 \<Rightarrow> u16 \<Rightarrow> u16" where
  "field_set pos n v w = (w AND NOT (push_bit pos (mask n))) OR push_bit pos (take_bit n v)"

definition xcoarse :: "scrolltype \<Rightarrow> u16" where
  "xcoarse l = field_get 0 5 (raw l)"

definition ycoarse :: "scrolltype \<Rightarrow> u16" where
  "ycoarse l = field_get 5 5 (raw l)"

definition basenta :: "scrolltype \<Rightarrow> u16" where
  "basenta l = field_get 10 2 (raw l)"

definition basenta_h :: "scrolltype \<Rightarrow> u16" where
  "basenta_h l = field_get 10 1 (raw l)"

definition basenta_v :: "scrolltype \<Rightarrow> u16" where
  "basenta_v l = field_get 11 1 (raw l)"

definition yfine :: "scrolltype \<Rightarrow> u16" where
  "yfine l = field_get 12 3 (raw l)"

definition vaddrhi :: "scrolltype \<Rightarrow> u16" where
  "vaddrhi l = field_get 8 8 (raw l)"

definition vaddrlo :: "scrolltype \<Rightarrow> u16" where
  "vaddrlo l = field_get 0 8 (raw l)"

definition set_xcoarse :: "u16 \<Rightarrow> scrolltype \<Rightarrow> scrolltype" where
  "set_xcoarse v l = l\<lparr>raw := field_set 0 5 v (raw l)\<rparr>"

definition set_ycoarse :: "u16 \<Rightarrow> scrolltype \<Rightarrow> scrolltype" where
  "set_ycoarse v l = l\<lparr>raw := field_set 5 5 v (raw l)\<rparr>"

definition set_basenta :: "u16 \<Rightarrow> scrolltype \<Rightarrow> scrolltype" where
  "set_basenta v l = l\<lparr>raw := field_set 10 2 v (raw l)\<rparr>"

definition set_basenta_h :: "u16 \<Rightarrow> scrolltype \<Rightarrow> scrolltype" where
  "set_basenta_h v l = l\<lparr>raw := field_set 10 1 v (raw l)\<rparr>"

definition set_basenta_v :: "u16 \<Rightarrow> scrolltype \<Rightarrow> scrolltype" where
  "set_basenta_v v l = l\<lparr>raw := field_set 11 1 v (raw l)\<rparr>"

definition set_yfine :: "u16 \<Rightarrow> scrolltype \<Rightarrow> scrolltype" where
  "set_yfine v l = l\<lparr>raw := field_set 12 3 v (raw l)\<rparr>"

definition set_vaddrhi :: "u16 \<Rightarrow> scrolltype \<Rightarrow> scrolltype" where
  "set_vaddrhi v l = l\<lparr>raw := field_set 8 8 v (raw l)\<rparr>"

definition set_vaddrlo :: "u16 \<Rightarrow> scrolltype \<Rightarrow> scrolltype" where
  "set_vaddrlo v l = l\<lparr>raw := field_set 0 8 v (raw l)\<rparr>"

definition set_xscroll :: "u8 \<Rightarrow> scrolltype \<Rightarrow> scrolltype" where
  "set_xscroll d l = l\<lparr>raw := field_set 0 5 (ucast (drop_bit 3 d)) (raw l), xfine := ucast d\<rparr>"

text \<open>
  Modelled from the spec: the sprite entry of the secondary and the render-ready OAM
  (section 3): the four bytes of a sprite, the tag of the primary sprite it came from,
  and the 16 interleaved pattern bits. \<open>spr_y\<close>, \<open>spr_index\<close>, \<open>spr_attr\<close>, \<open>spr_x\<close> and
  \<open>spr_pattern\<close> are the members \<^verbatim>\<open>y\<close>, \<^verbatim>\<open>index\<close>, \<^verbatim>\<open>attr\<close>, \<^verbatim>\<open>x\<close> and \<^verbatim>\<open>pattern\<close>.
\<close>

record sprite =
  sprindex :: u8
  spr_y :: u8
  spr_index :: u8
  spr_attr :: u8
  spr_x :: u8
  spr_pattern :: u16

text \<open>
  The cartridge (\<^verbatim>\<open>nes_->gamepak()\<close>) as the PPU sees it: a byte store, and the tables
  \<^verbatim>\<open>chr_banks\<close> (eight pattern banks of 1 KiB) and \<^verbatim>\<open>Nta\<close> (four nametable pages of
  1 KiB) of pointers into it, here the store address at which each bank starts. Two entries
  of \<^verbatim>\<open>Nta\<close> may point at the same page (mirroring). \<^verbatim>\<open>NRAM\<close> is the start of the 4 KiB of
  nametable memory that \<^verbatim>\<open>Power\<close> and \<^verbatim>\<open>Reset\<close> fill.
\<close>

record gamepak =
  mem :: "nat \<Rightarrow> u8"
  chr_banks :: "nat \<Rightarrow> nat"
  Nta :: "nat \<Rightarrow> nat"
  NRAM :: nat

datatype tvmode = NTSC | PAL

text \<open>
  The members of \<^verbatim>\<open>Ppu\<close> that \<^verbatim>\<open>ppu.cpp\<close> reads and writes, followed by what it touches in
  its collaborators: the cartridge, the CPU's \<^verbatim>\<open>nmi\<close> line and the CPU's cycle count.
  \<open>open_bus\<close>, \<open>offset_toggle\<close> and \<open>mode\<close> are the members \<^verbatim>\<open>open_bus_\<close>,
  \<^verbatim>\<open>offset_toggle_\<close> and \<^verbatim>\<open>mode_\<close>. The beat position, the VBlank state and the decay timer
  are C integers that stay far from their limits and are kept as \<open>int\<close>; the three sprite
  counters are only reset to 0 and incremented under a guard (\<^verbatim>\<open>sproutpos<8\<close>,
  \<^verbatim>\<open>sprinpos >= 64\<close>, \<^verbatim>\<open>sprrenpos < sproutpos\<close>) and are kept as \<open>nat\<close>. \<^verbatim>\<open>sprtmp\<close> only ever
  receives a byte of \<^verbatim>\<open>OAM\<close>. The arrays are functions of their index: \<^verbatim>\<open>OAM\<close> is indexed by
  the byte \<^verbatim>\<open>reg.OAMaddr\<close>, \<^verbatim>\<open>palette\<close> by an index masked with \<^verbatim>\<open>0x1F\<close>.
\<close>

record ppu =
  scanline :: int
  x :: int
  scanline_end :: int
  VBlankState :: int
  cycle_counter :: int
  read_buffer :: u8
  open_bus :: u8
  open_bus_decay_timer :: int
  even_odd_toggle :: bool
  offset_toggle :: bool
  reg :: regtype
  scroll :: scrolltype
  vaddr :: scrolltype
  palette :: "nat \<Rightarrow> u8"
  OAM :: "u8 \<Rightarrow> u8"
  OAM2 :: "nat \<Rightarrow> sprite"
  OAM3 :: "nat \<Rightarrow> sprite"
  sprinpos :: nat
  sproutpos :: nat
  sprrenpos :: nat
  sprtmp :: u8
  pat_addr :: int
  ioaddr :: int
  tilepat :: u16
  tileattr :: u16
  bg_shift_pat :: u32
  bg_shift_attr :: u32
  cycles :: nat
  mode :: tvmode
  gamepak :: gamepak
  nmi :: bool
  cpu_cycles :: nat

subsection \<open>Lifecycle: \<^verbatim>\<open>Initialize\<close>, \<^verbatim>\<open>Power\<close>, \<^verbatim>\<open>Reset\<close>\<close>

definition Initialize :: "ppu \<Rightarrow> ppu" where
  "Initialize s = s\<lparr>scanline := 241, x := 0, scanline_end := 341, VBlankState := 0,
     cycle_counter := 0, read_buffer := 0, open_bus := 0, open_bus_decay_timer := 0,
     even_odd_toggle := False, offset_toggle := False,
     reg := \<lparr>sysctrl = 0, dispctrl = 0, status = 0, OAMaddr = 0\<rparr>\<rparr>"

definition arr :: "u8 list" where
  "arr = [0x09,0x01,0x00,0x01,0x00,0x02,0x02,0x0D,0x08,0x10,0x08,0x24,0x00,0x00,0x04,0x2C,
          0x09,0x01,0x34,0x03,0x00,0x04,0x00,0x14,0x08,0x3A,0x00,0x02,0x00,0x20,0x2C,0x08]"

text \<open>\<^verbatim>\<open>memcpy(palette,arr,32)\<close> and \<^verbatim>\<open>memset(NRAM,v,0x1000)\<close>.\<close>

definition memcpy_palette :: "(nat \<Rightarrow> u8) \<Rightarrow> nat \<Rightarrow> u8" where
  "memcpy_palette p = (\<lambda>i. if i < 32 then arr ! i else p i)"

definition memset_NRAM :: "u8 \<Rightarrow> gamepak \<Rightarrow> gamepak" where
  "memset_NRAM v g = g\<lparr>mem := (\<lambda>a. if NRAM g \<le> a \<and> a < NRAM g + 0x1000 then v else mem g a)\<rparr>"

definition Power :: "ppu \<Rightarrow> ppu" where
  "Power s = s\<lparr>cycles := 0,
     reg := (reg s)\<lparr>sysctrl := 0, dispctrl := dispctrl (reg s) AND 0x6,
                    status := status (reg s) AND 0x1F, OAMaddr := 0\<rparr>,
     offset_toggle := False,
     scroll := (scroll s)\<lparr>raw := 0\<rparr>,
     vaddr := (vaddr s)\<lparr>raw := 0\<rparr>,
     read_buffer := 0,
     gamepak := memset_NRAM 0xFF (gamepak s),
     palette := memcpy_palette (palette s)\<rparr>"

definition Reset :: "ppu \<Rightarrow> ppu" where
  "Reset s = s\<lparr>cycles := 0,
     reg := (reg s)\<lparr>sysctrl := 0, dispctrl := dispctrl (reg s) AND 0x6,
                    status := status (reg s) AND 0x1F\<rparr>,
     offset_toggle := False,
     scroll := (scroll s)\<lparr>raw := 0\<rparr>,
     read_buffer := 0,
     palette := memcpy_palette (palette s),
     gamepak := memset_NRAM 0x00 (gamepak s)\<rparr>"

subsection \<open>Video memory: \<^verbatim>\<open>mmap\<close>\<close>

text \<open>
  \<^verbatim>\<open>mmap\<close> returns a reference to a byte: an entry of \<^verbatim>\<open>palette\<close>, or a byte of the
  cartridge reached through \<^verbatim>\<open>chr_banks\<close> or \<^verbatim>\<open>Nta\<close>. The reference is a location, read
  by \<open>load\<close> and assigned by \<open>store\<close>.
\<close>

datatype loc = Palette nat | Cart nat

definition mmap :: "gamepak \<Rightarrow> int \<Rightarrow> loc" where
  "mmap g i0 = (let i = i0 AND 0x3FFF in
     if i \<ge> 0x3F00 then Palette (nat ((if i mod 4 = 0 then i AND 0x0F else i) AND 0x1F))
     else if i < 0x2000 then Cart (chr_banks g (nat (drop_bit 10 i)) + nat (i AND 0x3FF))
     else Cart (Nta g (nat (drop_bit 10 i AND 3)) + nat (i AND 0x3FF)))"

definition load :: "ppu \<Rightarrow> loc \<Rightarrow> u8" where
  "load s l = (case l of Palette i \<Rightarrow> palette s i | Cart a \<Rightarrow> mem (gamepak s) a)"

definition store :: "loc \<Rightarrow> u8 \<Rightarrow> ppu \<Rightarrow> ppu" where
  "store l v s = (case l of
       Palette i \<Rightarrow> s\<lparr>palette := (palette s)(i := v)\<rparr>
     | Cart a \<Rightarrow> s\<lparr>gamepak := (gamepak s)\<lparr>mem := (mem (gamepak s))(a := v)\<rparr>\<rparr>)"

subsection \<open>Register interface: \<^verbatim>\<open>Read\<close> and \<^verbatim>\<open>Write\<close>\<close>

definition RefreshOpenBus :: "u8 \<Rightarrow> ppu \<Rightarrow> ppu" where
  "RefreshOpenBus v s = s\<lparr>open_bus_decay_timer := 77777, open_bus := v\<rparr>"

text \<open>\<^verbatim>\<open>vaddr.raw = vaddr.raw + (reg.Inc ? 32 : 1)\<close>\<close>

definition advance_vaddr :: "ppu \<Rightarrow> ppu" where
  "advance_vaddr s = s\<lparr>vaddr := (vaddr s)\<lparr>raw := raw (vaddr s) + (if Inc (reg s) then 32 else 1)\<rparr>\<rparr>"

definition Read :: "u16 \<Rightarrow> ppu \<Rightarrow> u8 \<times> ppu" where
  "Read address s =
    (let res = open_bus s; port = address AND 0x7 in
     if port = 2 then
       (status (reg s) OR (open_bus s AND 0x1F),
        s\<lparr>reg := set_InVBlank False (reg s),
          offset_toggle := False,
          VBlankState := (if VBlankState s \<noteq> -5 then 0 else VBlankState s)\<rparr>)
     else if port = 4 then
       (let v = OAM s (OAMaddr (reg s)) AND (if OAMdata (reg s) = 2 then 0xE3 else 0xFF)
        in (v, RefreshOpenBus v s))
     else if port = 7 then
       (let t = mmap (gamepak s) (uint (raw (vaddr s))) in
        if raw (vaddr s) AND 0x3F00 = 0x3F00 then
          (let res = (open_bus s AND 0xC0) OR (load s t AND 0x3F);
               s1 = s\<lparr>read_buffer := load s (mmap (gamepak s) (uint (raw (vaddr s) AND 0x2FFF)))\<rparr>
           in (res, advance_vaddr (RefreshOpenBus res s1)))
        else
          (let res = read_buffer s;
               s1 = s\<lparr>read_buffer := load s t\<rparr>
           in (res, advance_vaddr (RefreshOpenBus res s1))))
     else (res, s))"

definition Write :: "u16 \<Rightarrow> u8 \<Rightarrow> ppu \<Rightarrow> ppu" where
  "Write address data s0 =
    (let s = RefreshOpenBus data s0; port = address AND 0x7 in
     if port = 0 then
       (let r = (reg s)\<lparr>sysctrl := data\<rparr>
        in s\<lparr>reg := r, scroll := set_basenta (ucast (BaseNTA r)) (scroll s)\<rparr>)
     else if port = 1 then s\<lparr>reg := (reg s)\<lparr>dispctrl := data\<rparr>\<rparr>
     else if port = 3 then s\<lparr>reg := (reg s)\<lparr>OAMaddr := data\<rparr>\<rparr>
     else if port = 4 then
       s\<lparr>OAM := (OAM s)(OAMaddr (reg s) := data),
         reg := (reg s)\<lparr>OAMaddr := OAMaddr (reg s) + 1\<rparr>\<rparr>
     else if port = 5 then
       (if offset_toggle s
        then s\<lparr>scroll := set_ycoarse (ucast (drop_bit 3 data)) (set_yfine (ucast (data AND 7)) (scroll s)),
               offset_toggle := \<not> offset_toggle s\<rparr>
        else s\<lparr>scroll := set_xscroll data (scroll s), offset_toggle := \<not> offset_toggle s\<rparr>)
     else if port = 6 then
       (if offset_toggle s
        then (let l = set_vaddrlo (ucast data) (scroll s)
              in s\<lparr>scroll := l, vaddr := (vaddr s)\<lparr>raw := raw l\<rparr>,
                   offset_toggle := \<not> offset_toggle s\<rparr>)
        else s\<lparr>scroll := set_vaddrhi (ucast (data AND 0x3F)) (scroll s),
               offset_toggle := \<not> offset_toggle s\<rparr>)
     else if port = 7 then
       (let t = mmap (gamepak s) (uint (raw (vaddr s)));
            s1 = store t data s
        in advance_vaddr (RefreshOpenBus (load s1 t) s1))
     else s)"

subsection \<open>Background fetch and sprite pipelines: \<^verbatim>\<open>rendering_tick\<close>\<close>

text \<open>
  The remainder of C (\<^verbatim>\<open>x % 8\<close>, \<^verbatim>\<open>x % 2\<close>) truncates towards zero; \<^verbatim>\<open>x >> 4\<close> on the
  signed column is the arithmetic shift.
\<close>

definition c_rem :: "int \<Rightarrow> int \<Rightarrow> int" where
  "c_rem a b = sgn a * (\<bar>a\<bar> mod \<bar>b\<bar>)"

definition tile_decode_mode :: "ppu \<Rightarrow> bool" where
  "tile_decode_mode s = ((0x10FFFF :: u32) AND push_bit (nat (drop_bit 4 (x s))) 1 \<noteq> 0)"

text \<open>The three swap-mask stages of case 7, on the \<^verbatim>\<open>unsigned p\<close>.\<close>

definition swap_stages :: "u32 \<Rightarrow> u32" where
  "swap_stages p0 =
    (let p1 = (p0 AND 0xF00F) OR drop_bit 4 (p0 AND 0x0F00) OR push_bit 4 (p0 AND 0x00F0);
         p2 = (p1 AND 0xC3C3) OR drop_bit 2 (p1 AND 0x3030) OR push_bit 2 (p1 AND 0x0C0C);
         p3 = (p2 AND 0x9999) OR drop_bit 1 (p2 AND 0x4444) OR push_bit 1 (p2 AND 0x2222)
     in p3)"

text \<open>\<^verbatim>\<open>case 0\<close> of the first switch, which \<^verbatim>\<open>case 2\<close> falls into outside tile decoding.\<close>

definition point_to_nametable :: "ppu \<Rightarrow> ppu" where
  "point_to_nametable s =
    (let s1 = s\<lparr>ioaddr := 0x2000 + uint (raw (vaddr s) AND 0xFFF)\<rparr>;
         s2 = (if x s1 = 0
               then (let s' = s1\<lparr>sprinpos := 0, sproutpos := 0\<rparr>
                     in if ShowSP (reg s') then s'\<lparr>reg := (reg s')\<lparr>OAMaddr := 0\<rparr>\<rparr> else s')
               else s1)
     in if \<not> ShowBG (reg s2) then s2
        else
          (let s3 = (if x s2 = 304 \<and> scanline s2 = -1
                     then s2\<lparr>vaddr := (vaddr s2)\<lparr>raw := raw (scroll s2)\<rparr>\<rparr> else s2);
               s4 = (if x s3 = 256
                     then s3\<lparr>vaddr := set_basenta_h (basenta_h (scroll s3))
                                          (set_xcoarse (xcoarse (scroll s3)) (vaddr s3)),
                             sprrenpos := 0\<rparr>
                     else s3)
           in s4))"

definition point_to_attribute :: "ppu \<Rightarrow> ppu" where
  "point_to_attribute s =
    (let s1 = s\<lparr>ioaddr := 0x23C0 + 0x400 * uint (basenta (vaddr s))
                       + 8 * (uint (ycoarse (vaddr s)) div 4) + uint (xcoarse (vaddr s)) div 4\<rparr>
     in if tile_decode_mode s1 then s1 else point_to_nametable s1)"

definition nametable_access :: "ppu \<Rightarrow> ppu" where
  "nametable_access s =
    (let s1 = (if x s = 337 \<and> scanline s = -1 \<and> even_odd_toggle s \<and> ShowBG (reg s) \<and> mode s = NTSC
               then s\<lparr>scanline_end := 340\<rparr> else s);
         s2 = s1\<lparr>pat_addr := 0x1000 * of_bool (BGaddr (reg s1))
                    + 16 * uint (load s1 (mmap (gamepak s1) (ioaddr s1)))
                    + uint (yfine (vaddr s1))\<rparr>
     in if \<not> tile_decode_mode s2 then s2
        else s2\<lparr>bg_shift_pat := drop_bit 16 (bg_shift_pat s2) + 0x00010000 * ucast (tilepat s2),
                bg_shift_attr := drop_bit 16 (bg_shift_attr s2) + 0x55550000 * ucast (tileattr s2)\<rparr>)"

text \<open>The scroll increments of case 3: \<^verbatim>\<open>++vaddr.xcoarse\<close>, and at \<^verbatim>\<open>x==251\<close> the vertical one.\<close>

definition next_tile :: "int \<Rightarrow> scrolltype \<Rightarrow> scrolltype" where
  "next_tile col v =
    (let v1 = set_xcoarse (xcoarse v + 1) v;
         v2 = (if xcoarse v1 = 0 then set_basenta_h (1 - basenta_h v1) v1 else v1)
     in if col = 251
        then (let v3 = set_yfine (yfine v2 + 1) v2
              in if yfine v3 = 0
                 then (let v4 = set_ycoarse (ycoarse v3 + 1) v3
                       in if ycoarse v4 = 30
                          then (let v5 = set_ycoarse 0 v4 in set_basenta_v (1 - basenta_v v5) v5)
                          else v4)
                 else v3)
        else v2)"

definition attribute_access :: "ppu \<Rightarrow> ppu" where
  "attribute_access s =
    (if tile_decode_mode s then
       (let sh = unat ((xcoarse (vaddr s) AND 2) + 2 * (ycoarse (vaddr s) AND 2));
            s1 = s\<lparr>tileattr := ucast (drop_bit sh (load s (mmap (gamepak s) (ioaddr s)))) AND 3\<rparr>
        in s1\<lparr>vaddr := next_tile (x s1) (vaddr s1)\<rparr>)
     else if sprrenpos s < sproutpos s then
       (let k = sprrenpos s mod 8;
            sp = OAM2 s k;
            s1 = s\<lparr>OAM3 := (OAM3 s)(k := sp)\<rparr>;
            y0 = (word_of_int (scanline s1) - ucast (spr_y sp) :: u32);
            y1 = (if bit (spr_attr sp) 7 then y0 XOR (if SPsize (reg s1) then 15 else 7) else y0);
            a1 = 0x1000 * (if SPsize (reg s1) then uint (spr_index sp AND 0x01)
                           else of_bool (SPaddr (reg s1)));
            a2 = a1 + 0x10 * (if SPsize (reg s1) then uint (spr_index sp AND 0xFE)
                              else uint (spr_index sp AND 0xFF));
            a3 = a2 + uint ((y1 AND 7) + (y1 AND 8) * 2)
        in s1\<lparr>pat_addr := a3\<rparr>)
     else s)"

definition pattern_low :: "ppu \<Rightarrow> ppu" where
  "pattern_low s = s\<lparr>tilepat := ucast (load s (mmap (gamepak s) (pat_addr s OR 0)))\<rparr>"

definition pattern_high :: "ppu \<Rightarrow> ppu" where
  "pattern_high s =
    (let p = swap_stages (ucast (tilepat s)
               OR push_bit 8 (ucast (load s (mmap (gamepak s) (pat_addr s OR 8)))));
         s1 = s\<lparr>tilepat := ucast p\<rparr>
     in if \<not> tile_decode_mode s1 \<and> sprrenpos s1 < sproutpos s1
        then s1\<lparr>OAM3 := (OAM3 s1)(sprrenpos s1 mod 8 :=
                         (OAM3 s1 (sprrenpos s1 mod 8))\<lparr>spr_pattern := tilepat s1\<rparr>),
                sprrenpos := sprrenpos s1 + 1\<rparr>
        else s1)"

text \<open>The first switch of \<^verbatim>\<open>rendering_tick\<close>, on \<^verbatim>\<open>x % 8\<close>.\<close>

definition fetch_phase :: "ppu \<Rightarrow> ppu" where
  "fetch_phase s =
    (let ph = c_rem (x s) 8 in
     if ph = 2 then point_to_attribute s
     else if ph = 0 then point_to_nametable s
     else if ph = 1 then nametable_access s
     else if ph = 3 then attribute_access s
     else if ph = 5 then pattern_low s
     else if ph = 7 then pattern_high s
     else s)"

text \<open>
  The second switch: sprite evaluation. The selector is \<^verbatim>\<open>reg.OAMaddr++ & 3\<close> on odd
  columns 64..255 and 4 (the \<^verbatim>\<open>default\<close> label) elsewhere. \<open>OAM2_put f\<close> is the guarded
  assignment \<^verbatim>\<open>if(sproutpos<8) OAM2[sproutpos].member = sprtmp\<close>, with \<open>f\<close> the update of
  the member.
\<close>

definition OAM2_put :: "(sprite \<Rightarrow> sprite) \<Rightarrow> ppu \<Rightarrow> ppu" where
  "OAM2_put f s =
    (if sproutpos s < 8
     then s\<lparr>OAM2 := (OAM2 s)(sproutpos s := f (OAM2 s (sproutpos s)))\<rparr>
     else s)"

definition eval_y :: "ppu \<Rightarrow> ppu" where
  "eval_y s =
    (if sprinpos s \<ge> 64 then s\<lparr>reg := (reg s)\<lparr>OAMaddr := 0\<rparr>\<rparr>
     else
       (let s1 = s\<lparr>sprinpos := sprinpos s + 1\<rparr>;
            s2 = OAM2_put (\<lambda>sp. sp\<lparr>spr_y := sprtmp s1\<rparr>) s1;
            s3 = OAM2_put (\<lambda>sp. sp\<lparr>sprindex := OAMindex (reg s2)\<rparr>) s2;
            y1 = uint (sprtmp s3);
            y2 = uint (sprtmp s3) + (if SPsize (reg s3) then 16 else 8)
        in if \<not> (scanline s3 \<ge> y1 \<and> scanline s3 < y2)
           then s3\<lparr>reg := (reg s3)\<lparr>OAMaddr :=
                   (if sprinpos s3 \<noteq> 2 then OAMaddr (reg s3) + 3 else 8)\<rparr>\<rparr>
           else s3))"

definition eval_index :: "ppu \<Rightarrow> ppu" where
  "eval_index s = OAM2_put (\<lambda>sp. sp\<lparr>spr_index := sprtmp s\<rparr>) s"

definition eval_attr :: "ppu \<Rightarrow> ppu" where
  "eval_attr s = OAM2_put (\<lambda>sp. sp\<lparr>spr_attr := sprtmp s\<rparr>) s"

definition eval_x :: "ppu \<Rightarrow> ppu" where
  "eval_x s =
    (let s1 = OAM2_put (\<lambda>sp. sp\<lparr>spr_x := sprtmp s\<rparr>) s;
         s2 = (if sproutpos s1 < 8 then s1\<lparr>sproutpos := sproutpos s1 + 1\<rparr>
               else s1\<lparr>reg := set_SPoverflow True (reg s1)\<rparr>)
     in if sprinpos s2 = 2 then s2\<lparr>reg := (reg s2)\<lparr>OAMaddr := 8\<rparr>\<rparr> else s2)"

definition sprite_evaluation :: "ppu \<Rightarrow> ppu" where
  "sprite_evaluation s =
    (if x s \<ge> 64 \<and> x s < 256 \<and> c_rem (x s) 2 \<noteq> 0 then
       (let sel = OAMaddr (reg s) AND 3;
            s0 = s\<lparr>reg := (reg s)\<lparr>OAMaddr := OAMaddr (reg s) + 1\<rparr>\<rparr>
        in if sel = 0 then eval_y s0
           else if sel = 1 then eval_index s0
           else if sel = 2 then eval_attr s0
           else eval_x s0)
     else s\<lparr>sprtmp := OAM s (OAMaddr (reg s))\<rparr>)"

definition rendering_tick :: "ppu \<Rightarrow> ppu" where
  "rendering_tick s = sprite_evaluation (fetch_phase s)"

subsection \<open>Pixel compositor: \<^verbatim>\<open>render_pixel\<close>\<close>

text \<open>The two bits of pixel \<open>k\<close> of a sprite's pattern: \<^verbatim>\<open>(s.pattern >> (xdiff*2)) & 3\<close>.\<close>

definition pattern_pixel :: "u16 \<Rightarrow> nat \<Rightarrow> u8" where
  "pattern_pixel t k = ucast (drop_bit (k * 2) t) AND 3"

text \<open>
  The loop over \<^verbatim>\<open>OAM3[0..sprrenpos)\<close>. It returns whether sprite 0 was hit and the pixel
  and attribute after the first sprite pixel that is not transparent.
\<close>

fun overlay :: "int \<Rightarrow> (nat \<Rightarrow> sprite) \<Rightarrow> u32 \<Rightarrow> u32 \<Rightarrow> nat list \<Rightarrow> bool \<times> u32 \<times> u32" where
  "overlay col oam3 pixel attr [] = (False, pixel, attr)"
| "overlay col oam3 pixel attr (sno # rest) =
    (let sp = oam3 sno;
         xdiff = (word_of_int col - ucast (spr_x sp) :: u32)
     in if xdiff \<ge> 8 then overlay col oam3 pixel attr rest
        else
          (let xdiff' = (if \<not> bit (spr_attr sp) 6 then 7 - xdiff else xdiff);
               spritepixel = pattern_pixel (spr_pattern sp) (unat xdiff')
           in if spritepixel = 0 then overlay col oam3 pixel attr rest
              else
                (col < 255 \<and> pixel \<noteq> 0 \<and> sprindex sp = 0,
                 if \<not> bit (spr_attr sp) 5 \<or> pixel = 0
                 then (ucast spritepixel, ucast (spr_attr sp AND 3) + 4)
                 else (pixel, attr))))"

text \<open>
  \<^verbatim>\<open>render_pixel\<close> returns the palette index with the emphasis bits that it hands to the
  host (\<^verbatim>\<open>IO::PutPixel\<close>, whose colour goes to the host's frame buffer), and the PPU after
  it: the only member it writes is the sprite-0 hit flag.
\<close>

definition render_pixel :: "ppu \<Rightarrow> u32 \<times> ppu" where
  "render_pixel s =
    (let edge = ((word_of_int (x s + 8) :: u8) < 16);
         showbg = (ShowBG (reg s) \<and> (\<not> edge \<or> ShowBG8 (reg s)));
         showsp = (ShowSP (reg s) \<and> (\<not> edge \<or> ShowSP8 (reg s)));
         fx = (ucast (xfine (scroll s)) :: u32);
         xpos = 15 - ((word_of_int (x s AND 7) + fx + 8 * of_bool (x s AND 7 \<noteq> 0)) AND 15);
         bg = (if showbg
               then (let pixel = drop_bit (unat xpos * 2) (bg_shift_pat s) AND 3
                     in (pixel, drop_bit (unat xpos * 2) (bg_shift_attr s)
                                  AND (if pixel \<noteq> 0 then 3 else 0)))
               else if raw (vaddr s) AND 0x3F00 = 0x3F00 \<and> ShowBGSP (reg s) = 0
               then (ucast (raw (vaddr s)), 0)
               else (0, 0));
         ov = (if showsp then overlay (x s) (OAM3 s) (fst bg) (snd bg) [0..<sprrenpos s]
               else (False, bg));
         attr = snd (snd ov);
         pixel = fst (snd ov);
         idx = (ucast (palette s (unat ((attr * 4 + pixel) AND 0x1F)))
                  AND (if Grayscale (reg s) then 0x30 else 0x3F) :: u32)
     in (idx OR push_bit 6 (ucast (EmpRGB (reg s))),
         if fst ov then s\<lparr>reg := set_SP0hit True (reg s)\<rparr> else s))"

subsection \<open>Beat driver: \<^verbatim>\<open>Tick\<close>, \<^verbatim>\<open>TickNTSC\<close>, \<^verbatim>\<open>TickPAL\<close>\<close>

text \<open>
  One pass of the loop body of \<^verbatim>\<open>TickNTSC\<close> or \<^verbatim>\<open>TickPAL\<close> is a beat. The two bodies
  start with the same statements, translated once (\<open>beat_head\<close>): the switch on
  \<^verbatim>\<open>VBlankState\<close>, its step towards 0 and the decay of the open bus (\<open>pre_graphics\<close>),
  and then the graphics work.
\<close>

definition vblank_edge :: "ppu \<Rightarrow> ppu" where
  "vblank_edge s =
    (if VBlankState s = -5 then s\<lparr>reg := (reg s)\<lparr>status := 0\<rparr>\<rparr>
     else if VBlankState s = 2 then s\<lparr>reg := set_InVBlank True (reg s)\<rparr>
     else if VBlankState s = 0 then s\<lparr>nmi := (InVBlank (reg s) \<and> NMIenabled (reg s))\<rparr>
     else s)"

definition vblank_step :: "ppu \<Rightarrow> ppu" where
  "vblank_step s =
    (if VBlankState s \<noteq> 0
     then s\<lparr>VBlankState := VBlankState s + (if VBlankState s < 0 then 1 else -1)\<rparr>
     else s)"

definition open_bus_decay :: "ppu \<Rightarrow> ppu" where
  "open_bus_decay s =
    (if open_bus_decay_timer s \<noteq> 0
     then (let s1 = s\<lparr>open_bus_decay_timer := open_bus_decay_timer s - 1\<rparr>
           in if open_bus_decay_timer s1 = 0 then s1\<lparr>open_bus := 0\<rparr> else s1)
     else s)"

definition graphics :: "ppu \<Rightarrow> ppu" where
  "graphics s =
    (if scanline s < 240
     then (let s1 = (if ShowBGSP (reg s) \<noteq> 0 then rendering_tick s else s)
           in if scanline s1 \<ge> 0 \<and> x s1 < 256 then snd (render_pixel s1) else s1)
     else s)"

text \<open>
  \<^verbatim>\<open>if(++x == scanline_end) ...\<close> with the scanline at which the frame wraps to the
  pre-render line: 261 in \<^verbatim>\<open>TickNTSC\<close>, 311 in \<^verbatim>\<open>TickPAL\<close>. The calls \<^verbatim>\<open>on_render\<close>,
  \<^verbatim>\<open>on_vertical_blank\<close> and \<^verbatim>\<open>mapper->PpuTick\<close> go to collaborators and leave the members
  of the PPU as they are.
\<close>

definition next_column :: "int \<Rightarrow> ppu \<Rightarrow> ppu" where
  "next_column wrap s =
    (let s1 = s\<lparr>x := x s + 1\<rparr>
     in if x s1 = scanline_end s1
        then (let s2 = s1\<lparr>scanline_end := 341, x := 0, scanline := scanline s1 + 1\<rparr>
              in if scanline s2 = wrap
                 then s2\<lparr>scanline := -1, even_odd_toggle := \<not> even_odd_toggle s2,
                         VBlankState := -5\<rparr>
                 else if scanline s2 = 241 then s2\<lparr>VBlankState := 2\<rparr>
                 else s2)
        else s1)"

definition pre_graphics :: "ppu \<Rightarrow> ppu" where
  "pre_graphics s = open_bus_decay (vblank_step (vblank_edge s))"

definition beat_head :: "ppu \<Rightarrow> ppu" where
  "beat_head s = graphics (pre_graphics s)"

definition beatNTSC :: "ppu \<Rightarrow> ppu" where
  "beatNTSC s =
    (let s1 = beat_head s;
         s2 = s1\<lparr>cycle_counter := (if cycle_counter s1 + 1 = 3 then 0 else cycle_counter s1 + 1)\<rparr>;
         s3 = (if scanline s2 = 260 \<and> x s2 \<ge> 328 \<and> x s2 \<le> 339
               then s2\<lparr>reg := set_SP0hit False (reg s2)\<rparr> else s2);
         s4 = next_column 261 s3
     in s4\<lparr>cycles := cycles s4 + 1\<rparr>)"

definition beatPAL :: "ppu \<Rightarrow> ppu" where
  "beatPAL s =
    (let s1 = beat_head s;
         s4 = next_column 311 s1
     in s4\<lparr>cycles := cycles s4 + 1\<rparr>)"

definition TickNTSC :: "ppu \<Rightarrow> ppu" where
  "TickNTSC s = (beatNTSC ^^ 3) s"

definition TickPAL :: "ppu \<Rightarrow> ppu" where
  "TickPAL s = (beatPAL ^^ (if cpu_cycles s mod 5 = 4 then 4 else 3)) s"

definition Tick :: "ppu \<Rightarrow> ppu" where
  "Tick s = (case mode s of NTSC \<Rightarrow> TickNTSC s | PAL \<Rightarrow> TickPAL s)"

subsection \<open>The states of a run\<close>

text \<open>
  \<open>reach s0 s\<close>: the PPU constructed as \<open>s0\<close> is in state \<open>s\<close> after \<^verbatim>\<open>Initialize\<close> and
  any number of calls of \<^verbatim>\<open>Power\<close>, \<^verbatim>\<open>Reset\<close>, \<^verbatim>\<open>Read\<close>, \<^verbatim>\<open>Write\<close> and beats, in any
  order (the callbacks of a beat may use the register interface between two beats of one
  \<^verbatim>\<open>Tick\<close>), while the collaborators change the cartridge, the NMI line, the CPU's
  cycle count and the television mode as they like.
\<close>

inductive reach :: "ppu \<Rightarrow> ppu \<Rightarrow> bool" for s0 :: ppu where
  reach_Initialize: "reach s0 (Initialize s0)"
| reach_Power: "reach s0 s \<Longrightarrow> reach s0 (Power s)"
| reach_Reset: "reach s0 s \<Longrightarrow> reach s0 (Reset s)"
| reach_Read: "reach s0 s \<Longrightarrow> reach s0 (snd (Read a s))"
| reach_Write: "reach s0 s \<Longrightarrow> reach s0 (Write a b s)"
| reach_beatNTSC: "reach s0 s \<Longrightarrow> reach s0 (beatNTSC s)"
| reach_beatPAL: "reach s0 s \<Longrightarrow> reach s0 (beatPAL s)"
| reach_host: "reach s0 s \<Longrightarrow> reach s0 (s\<lparr>gamepak := g, nmi := n, cpu_cycles := c, mode := m\<rparr>)"

text \<open>
  An object whose members are all zero, with a cartridge of eight pattern banks in a row
  followed by two nametable pages mirrored vertically: the state used for the concrete
  runs below.
\<close>

definition zero_sprite :: sprite where
  "zero_sprite = \<lparr>sprindex = 0, spr_y = 0, spr_index = 0, spr_attr = 0, spr_x = 0, spr_pattern = 0\<rparr>"

definition zero_gamepak :: gamepak where
  "zero_gamepak = \<lparr>mem = (\<lambda>a. 0), chr_banks = (\<lambda>k. k * 0x400),
     Nta = (\<lambda>k. 0x2000 + (k mod 2) * 0x400), NRAM = 0x2000\<rparr>"

definition zero_ppu :: ppu where
  "zero_ppu = \<lparr>scanline = 0, x = 0, scanline_end = 0, VBlankState = 0, cycle_counter = 0,
     read_buffer = 0, open_bus = 0, open_bus_decay_timer = 0, even_odd_toggle = False,
     offset_toggle = False, reg = \<lparr>sysctrl = 0, dispctrl = 0, status = 0, OAMaddr = 0\<rparr>,
     scroll = \<lparr>raw = 0, xfine = 0\<rparr>, vaddr = \<lparr>raw = 0, xfine = 0\<rparr>,
     palette = (\<lambda>i. 0), OAM = (\<lambda>i. 0), OAM2 = (\<lambda>i. zero_sprite), OAM3 = (\<lambda>i. zero_sprite),
     sprinpos = 0, sproutpos = 0, sprrenpos = 0, sprtmp = 0, pat_addr = 0, ioaddr = 0,
     tilepat = 0, tileattr = 0, bg_shift_pat = 0, bg_shift_attr = 0, cycles = 0,
     mode = NTSC, gamepak = zero_gamepak, nmi = False, cpu_cycles = 0\<rparr>"

subsection \<open>Predicates used in the properties\<close>

text \<open>
  What the graphics work of a beat (\<^verbatim>\<open>rendering_tick\<close>, \<^verbatim>\<open>render_pixel\<close>) leaves alone:
  the open bus, the NMI line, the beat position, the control bytes, and every status bit
  except that it may set sprite overflow (bit 5) and sprite-0 hit (bit 6).
\<close>

definition gfx_frame :: "ppu \<Rightarrow> ppu \<Rightarrow> bool" where
  "gfx_frame s s' \<longleftrightarrow>
     open_bus s' = open_bus s \<and> open_bus_decay_timer s' = open_bus_decay_timer s \<and>
     nmi s' = nmi s \<and> VBlankState s' = VBlankState s \<and> x s' = x s \<and> scanline s' = scanline s \<and>
     cycle_counter s' = cycle_counter s \<and> cycles s' = cycles s \<and> mode s' = mode s \<and>
     sysctrl (reg s') = sysctrl (reg s) \<and> dispctrl (reg s') = dispctrl (reg s) \<and>
     (\<forall>n. bit (status (reg s)) n \<longrightarrow> bit (status (reg s')) n) \<and>
     (\<forall>n. bit (status (reg s')) n \<longrightarrow> n \<noteq> 5 \<longrightarrow> n \<noteq> 6 \<longrightarrow> bit (status (reg s)) n)"

text \<open>
  The status byte holds nothing but its three flags. \<^verbatim>\<open>Initialize\<close> clears the whole
  register file, and afterwards only the three flags are ever assigned.
\<close>

definition status_clean :: "ppu \<Rightarrow> bool" where
  "status_clean s \<longleftrightarrow> status (reg s) AND 0x1F = 0"

text \<open>
  The bounds of the sprite counters that every operation keeps, and the bounds as the
  specification states them (section 3), with \<^verbatim>\<open>sprrenpos\<close> below \<^verbatim>\<open>sproutpos\<close>.
\<close>

definition sprite_bounds :: "ppu \<Rightarrow> bool" where
  "sprite_bounds s \<longleftrightarrow> sproutpos s \<le> 8 \<and> sprrenpos s \<le> 8 \<and> sprinpos s \<le> 64"

definition spec_sprite_bounds :: "ppu \<Rightarrow> bool" where
  "spec_sprite_bounds s \<longleftrightarrow> sproutpos s \<le> 8 \<and> sprrenpos s \<le> sproutpos s \<and> sprinpos s \<le> 64"

text \<open>
  De-interleaving, following the specification's words (section 8): the bits at the even
  positions of the 16-bit value make the low byte, those at the odd positions the high
  byte.
\<close>

definition deinterleave :: "u16 \<Rightarrow> u8 \<times> u8" where
  "deinterleave t = (horner_sum of_bool 2 (map (\<lambda>k. bit t (2 * k)) [0..<8]),
                     horner_sum of_bool 2 (map (\<lambda>k. bit t (2 * k + 1)) [0..<8]))"

text \<open>The state after \<^verbatim>\<open>Initialize\<close> and \<^verbatim>\<open>Power\<close> of the all-zero object.\<close>

definition power_on :: ppu where
  "power_on = Power (Initialize zero_ppu)"

text \<open>
  States for the concrete runs: the VRAM address set to the first palette entry through
  port 6, and two states of a running frame: the entry to vertical blanking
  (the beat that moves to scanline 241 sets \<^verbatim>\<open>VBlankState = 2\<close>) with NMI enabled, and
  the last line of vertical blanking after a sprite-0 hit in the frame.
\<close>

definition at_palette :: ppu where
  "at_palette = Write 0x2006 0x00 (Write 0x2006 0x3F power_on)"

definition vblank_entry :: ppu where
  "vblank_entry = power_on\<lparr>VBlankState := 2, reg := (reg power_on)\<lparr>sysctrl := 0x80\<rparr>\<rparr>"

definition line_260 :: ppu where
  "line_260 = power_on\<lparr>scanline := 260, x := 328, reg := (reg power_on)\<lparr>status := 0x40\<rparr>\<rparr>"


text \<open>
  The frame with rendering disabled. \<open>frame_position\<close> counts the beats
  since the entry to scanline 241, where \<^verbatim>\<open>Initialize\<close> puts the beat position; a frame
  has 262 lines of 341 beats. \<open>idle_frame\<close> holds from power-on until the frame comes
  back to scanline 241.
\<close>

definition frame_position :: "ppu \<Rightarrow> int" where
  "frame_position s = (if scanline s \<ge> 241 then scanline s - 241 else scanline s + 21) * 341 + x s"

definition idle_frame :: "ppu \<Rightarrow> bool" where
  "idle_frame s \<longleftrightarrow> dispctrl (reg s) = 0 \<and> status (reg s) = 0 \<and> \<not> nmi s
     \<and> mode s = NTSC \<and> scanline_end s = 341 \<and> 0 \<le> x s \<and> x s < 341
     \<and> -1 \<le> scanline s \<and> scanline s \<le> 260 \<and> -5 \<le> VBlankState s \<and> VBlankState s \<le> 0"

text \<open>Power-on followed by a write of 0x80 to port 0, which enables NMI.\<close>

definition nmi_enabled_on :: ppu where
  "nmi_enabled_on = Write 0x2000 0x80 power_on"

text \<open>
  A run that draws: 2469 calls of \<^verbatim>\<open>Tick\<close> after power-on the beat position is column 246
  of scanline 0, and a write of 0x18 to port 1 shows background and sprites. The sprite
  memory is all zero, so the columns 247 to 253 copy sprite 0, which is in range on
  scanline 0, to \<^verbatim>\<open>OAM2\<close>. \<open>line_start\<close> is the state 95 beats later, at column 0 of
  scanline 1, and \<open>second_line\<close> the state after 32 calls of \<^verbatim>\<open>Tick\<close>, one beat after
  \<open>line_start\<close>. \<open>line_view s l c a i ou r\<close> reads the beat position and the sprite
  counters of such a run: scanline \<open>l\<close>, column \<open>c\<close>, \<^verbatim>\<open>reg.OAMaddr\<close> \<open>a\<close>, and the
  counters \<^verbatim>\<open>sprinpos\<close>, \<^verbatim>\<open>sproutpos\<close>, \<^verbatim>\<open>sprrenpos\<close>.
\<close>

definition rendering_on :: ppu where
  "rendering_on = Write 0x2001 0x18 ((Tick ^^ 2469) power_on)"

definition line_start :: ppu where
  "line_start = (beatNTSC ^^ 95) rendering_on"

definition second_line :: ppu where
  "second_line = (Tick ^^ 32) rendering_on"

definition line_view :: "ppu \<Rightarrow> int \<Rightarrow> int \<Rightarrow> u8 \<Rightarrow> nat \<Rightarrow> nat \<Rightarrow> nat \<Rightarrow> bool" where
  "line_view s l c a i ou r \<longleftrightarrow>
     scanline s = l \<and> x s = c \<and> scanline_end s = 341 \<and> dispctrl (reg s) = 0x18
     \<and> sysctrl (reg s) = 0 \<and> mode s = NTSC \<and> OAM s = (\<lambda>k. 0) \<and> sprtmp s = 0
     \<and> OAMaddr (reg s) = a \<and> sprinpos s = i \<and> sproutpos s = ou \<and> sprrenpos s = r"

text \<open>
  The wrap of the frame. \<open>wrap_view\<close> holds in every state of a run: \<^verbatim>\<open>VBlankState\<close> lies
  in -5..2, and it is -5 only at column 0 of the pre-render scanline, where the wrap puts
  it. \<open>prerender_entry\<close> is that state in the first frame after power-on, 20 lines of 341
  beats after \<^verbatim>\<open>Initialize\<close>; \<open>prerender_hit\<close> is a state at the same position with the
  three status flags set.
\<close>

definition wrap_view :: "ppu \<Rightarrow> bool" where
  "wrap_view s \<longleftrightarrow> -5 \<le> VBlankState s \<and> VBlankState s \<le> 2
     \<and> (VBlankState s = -5 \<longrightarrow> scanline s = -1 \<and> x s = 0)"

definition prerender_entry :: ppu where
  "prerender_entry = (beatNTSC ^^ 6820) power_on"

definition prerender_hit :: ppu where
  "prerender_hit = power_on\<lparr>scanline := -1, x := 0, VBlankState := -5,
     reg := (reg power_on)\<lparr>status := 0xE0\<rparr>\<rparr>"

section \<open>Auxiliary facts\<close>

subsection \<open>Memory and latches\<close>

lemma load_store_same: "load (store l v s) l = v"
  by (cases l) (simp_all add: load_def store_def)

lemma field_set_hi_lo:
  "field_set 0 8 lo (field_set 8 8 hi w) = push_bit 8 (take_bit 8 hi) OR take_bit 8 lo"
  by (rule bit_word_eqI) (auto simp add: field_set_def bit_simps)

lemma mmap_backdrop:
  "mmap g 0x3F00 = Palette 0" "mmap g 0x3F04 = Palette 4"
  "mmap g 0x3F08 = Palette 8" "mmap g 0x3F0C = Palette 12"
  "mmap g 0x3F10 = Palette 0" "mmap g 0x3F14 = Palette 4"
  "mmap g 0x3F18 = Palette 8" "mmap g 0x3F1C = Palette 12"
  by (simp_all add: mmap_def)

subsection \<open>What the graphics work of a beat leaves alone\<close>

lemma gfx_frame_refl: "gfx_frame s s"
  by (simp add: gfx_frame_def)

lemma gfx_frame_trans: 
  assumes "gfx_frame s s1" and "gfx_frame s1 s2" shows "gfx_frame s s2"
proof -
  have up: "\<forall>n. bit (status (reg s)) n \<longrightarrow> bit (status (reg s2)) n"
    using assms unfolding gfx_frame_def by blast
  have down: "\<forall>n. bit (status (reg s2)) n \<longrightarrow> n \<noteq> 5 \<longrightarrow> n \<noteq> 6 \<longrightarrow> bit (status (reg s)) n"
    using assms unfolding gfx_frame_def by blast
  have eqs: "open_bus s2 = open_bus s \<and> open_bus_decay_timer s2 = open_bus_decay_timer s \<and>
     nmi s2 = nmi s \<and> VBlankState s2 = VBlankState s \<and> x s2 = x s \<and> scanline s2 = scanline s \<and>
     cycle_counter s2 = cycle_counter s \<and> cycles s2 = cycles s \<and> mode s2 = mode s \<and>
     sysctrl (reg s2) = sysctrl (reg s) \<and> dispctrl (reg s2) = dispctrl (reg s)"
    using assms unfolding gfx_frame_def by presburger
  show ?thesis
    unfolding gfx_frame_def using up down eqs by blast
qed

lemma point_to_nametable_frame: "gfx_frame s (point_to_nametable s)"
  by (simp add: point_to_nametable_def gfx_frame_def Let_def)

lemma point_to_attribute_frame: "gfx_frame s (point_to_attribute s)"
proof -
  have "gfx_frame s (s\<lparr>ioaddr := a\<rparr>)" for a
    by (simp add: gfx_frame_def)
  then show ?thesis
    unfolding point_to_attribute_def Let_def
    by (auto intro: gfx_frame_trans point_to_nametable_frame)
qed

lemma nametable_access_frame: "gfx_frame s (nametable_access s)"
  by (simp add: nametable_access_def gfx_frame_def Let_def)

lemma attribute_access_frame: "gfx_frame s (attribute_access s)"
  by (simp add: attribute_access_def gfx_frame_def Let_def)

lemma pattern_low_frame: "gfx_frame s (pattern_low s)"
  by (simp add: pattern_low_def gfx_frame_def)

lemma pattern_high_frame: "gfx_frame s (pattern_high s)"
  by (simp add: pattern_high_def gfx_frame_def Let_def)

lemma fetch_phase_frame: "gfx_frame s (fetch_phase s)"
  by (simp add: fetch_phase_def Let_def gfx_frame_refl point_to_nametable_frame
      point_to_attribute_frame nametable_access_frame attribute_access_frame
      pattern_low_frame pattern_high_frame)

lemma OAM2_put_frame: "gfx_frame s (OAM2_put f s)"
  by (simp add: OAM2_put_def gfx_frame_def)

lemma OAM2_put_fields:
  "sprinpos (OAM2_put f s) = sprinpos s" "sproutpos (OAM2_put f s) = sproutpos s"
  "sprrenpos (OAM2_put f s) = sprrenpos s" "reg (OAM2_put f s) = reg s"
  "sprtmp (OAM2_put f s) = sprtmp s" "scanline (OAM2_put f s) = scanline s"
  by (simp_all add: OAM2_put_def)

lemma eval_y_frame: "gfx_frame s (eval_y s)"
  by (simp add: eval_y_def OAM2_put_def gfx_frame_def Let_def)

lemma eval_index_frame: "gfx_frame s (eval_index s)"
  by (simp add: eval_index_def OAM2_put_frame)

lemma eval_attr_frame: "gfx_frame s (eval_attr s)"
  by (simp add: eval_attr_def OAM2_put_frame)

lemma eval_x_frame: "gfx_frame s (eval_x s)"
  by (simp add: eval_x_def OAM2_put_def gfx_frame_def Let_def set_SPoverflow_def assign_bit_def bit_simps)

lemma sprite_evaluation_frame: "gfx_frame s (sprite_evaluation s)"
proof -
  let ?s0 = "s\<lparr>reg := (reg s)\<lparr>OAMaddr := OAMaddr (reg s) + 1\<rparr>\<rparr>"
  have step: "gfx_frame s ?s0"
    by (simp add: gfx_frame_def)
  have "gfx_frame s (s\<lparr>sprtmp := v\<rparr>)" for v
    by (simp add: gfx_frame_def)
  then show ?thesis
    unfolding sprite_evaluation_def Let_def
    by (simp add: gfx_frame_trans [OF step eval_y_frame] gfx_frame_trans [OF step eval_index_frame]
        gfx_frame_trans [OF step eval_attr_frame] gfx_frame_trans [OF step eval_x_frame])
qed

lemma rendering_tick_frame: "gfx_frame s (rendering_tick s)"
  unfolding rendering_tick_def
  by (rule gfx_frame_trans [OF fetch_phase_frame sprite_evaluation_frame])

lemma render_pixel_frame: "gfx_frame s (snd (render_pixel s))"
  by (simp add: render_pixel_def gfx_frame_def Let_def set_SP0hit_def assign_bit_def bit_simps)

lemma graphics_frame: "gfx_frame s (graphics s)"
  unfolding graphics_def Let_def
  by (auto intro: gfx_frame_refl rendering_tick_frame render_pixel_frame
       gfx_frame_trans [OF rendering_tick_frame render_pixel_frame])

lemma point_to_nametable_bounds: "sprite_bounds s \<Longrightarrow> sprite_bounds (point_to_nametable s)"
  by (simp add: point_to_nametable_def Let_def sprite_bounds_def)

lemma point_to_attribute_bounds: "sprite_bounds s \<Longrightarrow> sprite_bounds (point_to_attribute s)"
proof -
  assume b: "sprite_bounds s"
  then have "sprite_bounds (s\<lparr>ioaddr := a\<rparr>)" for a
    by (simp add: sprite_bounds_def)
  then show ?thesis
    unfolding point_to_attribute_def Let_def
    by (simp add: point_to_nametable_bounds)
qed

lemma nametable_access_bounds: "sprite_bounds s \<Longrightarrow> sprite_bounds (nametable_access s)"
  by (simp add: nametable_access_def Let_def sprite_bounds_def)

lemma attribute_access_bounds: "sprite_bounds s \<Longrightarrow> sprite_bounds (attribute_access s)"
  by (simp add: attribute_access_def Let_def sprite_bounds_def)

lemma pattern_low_bounds: "sprite_bounds s \<Longrightarrow> sprite_bounds (pattern_low s)"
  by (simp add: pattern_low_def sprite_bounds_def)

lemma pattern_high_bounds: "sprite_bounds s \<Longrightarrow> sprite_bounds (pattern_high s)"
  by (auto simp add: pattern_high_def Let_def sprite_bounds_def)

lemma fetch_phase_bounds: "sprite_bounds s \<Longrightarrow> sprite_bounds (fetch_phase s)"
  by (simp add: fetch_phase_def Let_def point_to_nametable_bounds point_to_attribute_bounds
      nametable_access_bounds attribute_access_bounds pattern_low_bounds pattern_high_bounds)

lemma eval_y_bounds: "sprite_bounds s \<Longrightarrow> sprite_bounds (eval_y s)"
  by (auto simp add: eval_y_def Let_def sprite_bounds_def OAM2_put_fields)

lemma eval_x_bounds: "sprite_bounds s \<Longrightarrow> sprite_bounds (eval_x s)"
  by (auto simp add: eval_x_def Let_def sprite_bounds_def OAM2_put_fields)

lemma sprite_evaluation_bounds: "sprite_bounds s \<Longrightarrow> sprite_bounds (sprite_evaluation s)"
proof -
  assume b: "sprite_bounds s"
  then have "sprite_bounds (s\<lparr>reg := r\<rparr>)" "sprite_bounds (s\<lparr>sprtmp := v\<rparr>)" for r v
    by (simp_all add: sprite_bounds_def)
  moreover have "sprite_bounds t \<Longrightarrow> sprite_bounds (OAM2_put f t)" for t f
    by (simp add: sprite_bounds_def OAM2_put_fields)
  ultimately show ?thesis
    unfolding sprite_evaluation_def Let_def eval_index_def eval_attr_def
    by (simp add: eval_y_bounds eval_x_bounds)
qed

lemma rendering_tick_bounds: "sprite_bounds s \<Longrightarrow> sprite_bounds (rendering_tick s)"
  unfolding rendering_tick_def
  by (intro sprite_evaluation_bounds fetch_phase_bounds)

subsection \<open>The parts of a beat\<close>

lemma pre_graphics_fields:
  "open_bus (pre_graphics s) = (if open_bus_decay_timer s = 1 then 0 else open_bus s)"
  "open_bus_decay_timer (pre_graphics s) = (if open_bus_decay_timer s \<noteq> 0 then open_bus_decay_timer s - 1 else 0)"
  "nmi (pre_graphics s) = (if VBlankState s = 0 then InVBlank (reg s) \<and> NMIenabled (reg s) else nmi s)"
  "sysctrl (reg (pre_graphics s)) = sysctrl (reg s)"
  "dispctrl (reg (pre_graphics s)) = dispctrl (reg s)"
  "status (reg (pre_graphics s)) =
     (if VBlankState s = -5 then 0 else if VBlankState s = 2 then set_bit 7 (status (reg s)) else status (reg s))"
  "x (pre_graphics s) = x s" "scanline (pre_graphics s) = scanline s"
  "sprinpos (pre_graphics s) = sprinpos s" "sproutpos (pre_graphics s) = sproutpos s"
  "sprrenpos (pre_graphics s) = sprrenpos s"
  by (simp_all add: pre_graphics_def open_bus_decay_def vblank_step_def vblank_edge_def Let_def
      set_InVBlank_def assign_bit_def)

lemma beat_head_frame: "gfx_frame (pre_graphics s) (beat_head s)"
  by (simp add: beat_head_def graphics_frame)

lemma render_pixel_counters:
  "sprinpos (snd (render_pixel s)) = sprinpos s" "sproutpos (snd (render_pixel s)) = sproutpos s"
  "sprrenpos (snd (render_pixel s)) = sprrenpos s"
  by (simp_all add: render_pixel_def Let_def)

lemma graphics_bounds: "sprite_bounds s \<Longrightarrow> sprite_bounds (graphics s)"
  by (simp add: graphics_def Let_def rendering_tick_bounds)
     (simp add: sprite_bounds_def render_pixel_counters rendering_tick_bounds [unfolded sprite_bounds_def])

lemma beat_head_bounds: "sprite_bounds s \<Longrightarrow> sprite_bounds (beat_head s)"
proof -
  assume "sprite_bounds s"
  then have "sprite_bounds (pre_graphics s)"
    by (simp add: sprite_bounds_def pre_graphics_fields)
  then show ?thesis
    unfolding beat_head_def by (rule graphics_bounds)
qed

lemma beatNTSC_tail:
  "open_bus (beatNTSC s) = open_bus (beat_head s)"
  "open_bus_decay_timer (beatNTSC s) = open_bus_decay_timer (beat_head s)"
  "nmi (beatNTSC s) = nmi (beat_head s)"
  "sysctrl (reg (beatNTSC s)) = sysctrl (reg (beat_head s))"
  "status (reg (beatNTSC s)) =
     (if scanline (beat_head s) = 260 \<and> 328 \<le> x (beat_head s) \<and> x (beat_head s) \<le> 339
      then unset_bit 6 (status (reg (beat_head s))) else status (reg (beat_head s)))"
  "sprinpos (beatNTSC s) = sprinpos (beat_head s)" "sproutpos (beatNTSC s) = sproutpos (beat_head s)"
  "sprrenpos (beatNTSC s) = sprrenpos (beat_head s)"
  by (simp_all add: beatNTSC_def Let_def next_column_def set_SP0hit_def assign_bit_def)

lemma beatPAL_tail:
  "open_bus (beatPAL s) = open_bus (beat_head s)"
  "open_bus_decay_timer (beatPAL s) = open_bus_decay_timer (beat_head s)"
  "nmi (beatPAL s) = nmi (beat_head s)"
  "sysctrl (reg (beatPAL s)) = sysctrl (reg (beat_head s))"
  "status (reg (beatPAL s)) = status (reg (beat_head s))"
  "sprinpos (beatPAL s) = sprinpos (beat_head s)" "sproutpos (beatPAL s) = sproutpos (beat_head s)"
  "sprrenpos (beatPAL s) = sprrenpos (beat_head s)"
  by (simp_all add: beatPAL_def Let_def next_column_def)

lemma beat_head_fields:
  "open_bus (beat_head s) = (if open_bus_decay_timer s = 1 then 0 else open_bus s)"
  "open_bus_decay_timer (beat_head s) = (if open_bus_decay_timer s \<noteq> 0 then open_bus_decay_timer s - 1 else 0)"
  "nmi (beat_head s) = (if VBlankState s = 0 then InVBlank (reg s) \<and> NMIenabled (reg s) else nmi s)"
  "sysctrl (reg (beat_head s)) = sysctrl (reg s)"
  "x (beat_head s) = x s" "scanline (beat_head s) = scanline s"
  using beat_head_frame [of s] by (simp_all add: gfx_frame_def pre_graphics_fields)

subsection \<open>The status byte holds only its flags\<close>

lemma low5: "(0x1F::u8) = mask 5" by (simp add: mask_eq_exp_minus_1)

lemma clean_iff: "(w AND 0x1F = 0) \<longleftrightarrow> (\<forall>n<5. \<not> bit (w::u8) n)"
proof -
  have "(w AND 0x1F = 0) \<longleftrightarrow> (\<forall>n<8. \<not> (bit w n \<and> n < 5))"
    unfolding low5 by (simp add: bit_eq_iff bit_simps)
  also have "\<dots> \<longleftrightarrow> (\<forall>n<5. \<not> bit w n)"
  proof (intro iffI allI impI)
    fix n :: nat
    assume a: "\<forall>n<8. \<not> (bit w n \<and> n < 5)" and n: "n < 5"
    from n have "n < 8" by simp
    with a n show "\<not> bit w n" by blast
  next
    fix n :: nat
    assume "\<forall>n<5. \<not> bit w n" and "n < 8"
    then show "\<not> (bit w n \<and> n < 5)" by blast
  qed
  finally show ?thesis .
qed

lemma status_clean_iff: "status_clean s \<longleftrightarrow> (\<forall>n<5. \<not> bit (status (reg s)) n)"
  by (simp add: status_clean_def clean_iff)

lemma clean_set_bit: "5 \<le> k \<Longrightarrow> w AND 0x1F = 0 \<Longrightarrow> set_bit k w AND 0x1F = (0::u8)"
  by (auto simp add: clean_iff bit_simps)

lemma clean_unset_bit: "w AND 0x1F = 0 \<Longrightarrow> unset_bit k w AND 0x1F = (0::u8)"
  by (auto simp add: clean_iff bit_simps)

lemma status_clean_Initialize: "status_clean (Initialize s)"
  by (simp add: status_clean_def Initialize_def)

lemma status_clean_Power: "status_clean s \<Longrightarrow> status_clean (Power s)"
  by (simp add: status_clean_def Power_def and.assoc)

lemma status_clean_Reset: "status_clean s \<Longrightarrow> status_clean (Reset s)"
  by (simp add: status_clean_def Reset_def and.assoc)

lemma status_clean_Read: "status_clean s \<Longrightarrow> status_clean (snd (Read a s))"
  by (simp add: status_clean_def Read_def Let_def RefreshOpenBus_def advance_vaddr_def
      set_InVBlank_def assign_bit_def clean_unset_bit)

lemma reg_store: "reg (store l v s) = reg s"
  by (cases l) (simp_all add: store_def)

lemma status_clean_Write: "status_clean s \<Longrightarrow> status_clean (Write a b s)"
  by (simp add: status_clean_def Write_def Let_def RefreshOpenBus_def advance_vaddr_def reg_store)

lemma status_clean_beat_head: "status_clean s \<Longrightarrow> status_clean (beat_head s)"
proof -
  assume "status_clean s"
  then have "status_clean (pre_graphics s)"
    by (simp add: status_clean_def pre_graphics_fields clean_set_bit)
  then have pre: "\<forall>n<5. \<not> bit (status (reg (pre_graphics s))) n"
    by (simp add: status_clean_iff)
  have down: "\<forall>n. bit (status (reg (beat_head s))) n \<longrightarrow> n \<noteq> 5 \<longrightarrow> n \<noteq> 6
      \<longrightarrow> bit (status (reg (pre_graphics s))) n"
    using beat_head_frame [of s] unfolding gfx_frame_def by blast
  show ?thesis
    unfolding status_clean_iff
  proof (intro allI impI)
    fix n :: nat
    assume n: "n < 5"
    then have "n \<noteq> 5" "n \<noteq> 6" by simp_all
    with down pre n show "\<not> bit (status (reg (beat_head s))) n" by blast
  qed
qed

lemma status_clean_beatNTSC: "status_clean s \<Longrightarrow> status_clean (beatNTSC s)"
  using status_clean_beat_head [of s]
  by (simp add: status_clean_def beatNTSC_tail clean_unset_bit)

lemma status_clean_beatPAL: "status_clean s \<Longrightarrow> status_clean (beatPAL s)"
  using status_clean_beat_head [of s]
  by (simp add: status_clean_def beatPAL_tail)

lemma reach_status_clean: "reach s0 s \<Longrightarrow> status_clean s"
proof (induction rule: reach.induct)
  case reach_Initialize
  show ?case by (rule status_clean_Initialize)
next
  case (reach_host s g n c m)
  then show ?case by (simp add: status_clean_def)
qed (simp_all add: status_clean_Power status_clean_Reset status_clean_Read status_clean_Write
      status_clean_beatNTSC status_clean_beatPAL)

lemma clean_high:
  fixes w v :: u8
  assumes "w AND 0x1F = 0"
  shows "w OR (v AND 0x1F) = (w AND 0xE0) OR (v AND 0x1F)"
proof -
  have "(0xE0 OR 0x1F :: u8) = - 1" by simp
  then have "w = w AND (0xE0 OR 0x1F)" by (simp only: and.right_neutral)
  also have "\<dots> = (w AND 0xE0) OR (w AND 0x1F)" by (simp only: bit.conj_disj_distrib)
  finally have "w = w AND 0xE0" using assms by simp
  then show ?thesis by simp
qed

lemma high3: "(w OR (v AND 0x1F)) AND 0xE0 = w AND (0xE0::u8)"
proof -
  have "(v AND 0x1F) AND (0xE0::u8) = 0"
    by (simp add: and.assoc)
  then show ?thesis
    by (simp add: bit.conj_disj_distrib2)
qed

subsection \<open>Video memory addresses\<close>

lemma and_3F00_int: "(a::int) AND 0x3F00 = ((a div 256) mod 64) * 256"
proof -
  have "(0x3F00::int) = push_bit 8 (mask 6)" by (simp add: mask_eq_exp_minus_1)
  then have "a AND 0x3F00 = a AND push_bit 8 (mask 6)" by simp
  also have "\<dots> = push_bit 8 (take_bit 6 (drop_bit 8 a))"
    by (rule bit_eqI) (auto simp add: bit_simps)
  also have "\<dots> = ((a div 256) mod 64) * 256"
    by (simp add: push_bit_eq_mult take_bit_eq_mod drop_bit_eq_div)
  finally show ?thesis .
qed

lemma and_3FFF_int: "(a::int) AND 0x3FFF = a mod 0x4000"
proof -
  have "(0x3FFF::int) = mask 14" by (simp add: mask_eq_exp_minus_1)
  then have "a AND 0x3FFF = take_bit 14 a" by (simp only: take_bit_eq_mask)
  then show ?thesis by (simp add: take_bit_eq_mod)
qed

lemma and_3FF_int: "(a::int) AND 0x3FF = a mod 0x400"
proof -
  have "(0x3FF::int) = mask 10" by (simp add: mask_eq_exp_minus_1)
  then have "a AND 0x3FF = take_bit 10 a" by (simp only: take_bit_eq_mask)
  then show ?thesis by (simp add: take_bit_eq_mod)
qed

lemma palette_range_int: "((a::int) AND 0x3FFF \<ge> 0x3F00) \<longleftrightarrow> (a AND 0x3F00 = 0x3F00)"
proof -
  define m where "m = (a div 256) mod 64"
  define r where "r = a mod 256"
  have bounds: "0 \<le> m" "m < 64" "0 \<le> r" "r < 256"
    by (simp_all add: m_def r_def)
  have "a mod (256 * 64) = 256 * m + r"
    unfolding m_def r_def by (rule zmod_zmult2_eq) simp
  then have lhs: "a AND 0x3FFF = 256 * m + r"
    by (simp add: and_3FFF_int)
  have rhs: "a AND 0x3F00 = m * 256"
    by (simp add: and_3F00_int m_def)
  show ?thesis
    unfolding lhs rhs using bounds by arith
qed

lemma mmap_palette:
  assumes "raw v AND 0x3F00 = 0x3F00"
  shows "\<exists>i<32. mmap g (uint (raw v)) = Palette i"
proof -
  have "uint (raw v) AND 0x3F00 = uint (raw v AND 0x3F00)"
    by (simp add: uint_and)
  with assms have "uint (raw v) AND 0x3F00 = 0x3F00"
    by simp
  then have p: "uint (raw v) AND 0x3FFF \<ge> 0x3F00"
    by (simp only: palette_range_int)
  have "nat (k AND 0x1F) < 32" for k :: int
  proof -
    have "k AND 0x1F \<le> 0x1F" by (rule AND_upper2') simp_all
    then show ?thesis by arith
  qed
  then show ?thesis
    using p by (simp add: mmap_def Let_def)
qed

lemma mmap_not_palette:
  assumes "raw v AND 0x3F00 \<noteq> 0x3F00"
  shows "\<exists>a. mmap g (uint (raw v)) = Cart a"
proof -
  have "uint (raw v) AND 0x3F00 = uint (raw v AND 0x3F00)"
    by (simp add: uint_and)
  moreover have "uint (raw v AND 0x3F00) \<noteq> uint (0x3F00 :: u16)"
    using assms by (simp only: word_uint_eq_iff not_False_eq_True)
  ultimately have "uint (raw v) AND 0x3F00 \<noteq> 0x3F00"
    by simp
  then have p: "\<not> uint (raw v) AND 0x3FFF \<ge> 0x3F00"
    by (simp only: palette_range_int not_False_eq_True)
  then show ?thesis
    by (simp add: mmap_def Let_def)
qed

lemma mmap_nametable_mirror:
  assumes "raw v AND 0x3F00 = 0x3F00"
  shows "\<exists>off<0x400. mmap g (uint (raw v AND 0x2FFF)) = Cart (Nta g 3 + off)"
proof -
  let ?w = "raw v AND 0x2FFF"
  have "?w AND 0x2F00 = (raw v AND 0x3F00) AND 0x2F00"
    by (simp add: and.assoc)
  also have "\<dots> = 0x2F00"
    by (simp add: assms)
  finally have "0x2F00 = ?w AND 0x2F00" by simp
  also have "\<dots> \<le> ?w" by (rule word_and_le2)
  finally have lo: "0x2F00 \<le> uint ?w"
    by (simp add: word_le_def)
  have "?w \<le> 0x2FFF" by (rule word_and_le1)
  then have hi: "uint ?w \<le> 0x2FFF"
    by (simp add: word_le_def)
  from lo hi have i: "uint ?w AND 0x3FFF = uint ?w"
    by (simp add: and_3FFF_int)
  from lo hi have d: "drop_bit 10 (uint ?w) = 11"
    by (simp add: drop_bit_eq_div)
  have off: "nat (uint ?w AND 0x3FF) < 0x400"
    by (simp add: and_3FF_int)
  have "mmap g (uint ?w) = Cart (Nta g 3 + nat (uint ?w AND 0x3FF))"
    using lo hi by (simp add: mmap_def Let_def i d)
  with off show ?thesis by blast
qed

subsection \<open>The beat driver\<close>

lemma bit7_frame:
  assumes "gfx_frame s s'"
  shows "bit (status (reg s')) 7 = bit (status (reg s)) 7"
    and "bit (status (reg s)) 6 \<Longrightarrow> bit (status (reg s')) 6"
  using assms unfolding gfx_frame_def by auto

lemma beat_head_InVBlank:
  "VBlankState s = 0 \<Longrightarrow> InVBlank (reg (beat_head s)) = InVBlank (reg s)"
  using bit7_frame(1) [OF beat_head_frame, of s]
  by (simp add: InVBlank_def pre_graphics_fields)

lemma graphics_idle: "dispctrl (reg s) = 0 \<Longrightarrow> graphics s = s"
  by (simp add: graphics_def render_pixel_def Let_def ShowBGSP_def ShowBG_def ShowSP_def)

lemma pre_graphics_more:
  "scanline_end (pre_graphics s) = scanline_end s" "mode (pre_graphics s) = mode s"
  "VBlankState (pre_graphics s) = VBlankState (vblank_step s)"
  by (simp_all add: pre_graphics_def open_bus_decay_def vblank_step_def vblank_edge_def Let_def)

lemma beatNTSC_idle:
  assumes "dispctrl (reg s) = 0"
  shows "x (beatNTSC s) = (if x s + 1 = scanline_end s then 0 else x s + 1)"
    and "scanline (beatNTSC s) =
      (if x s + 1 = scanline_end s then (if scanline s + 1 = 261 then -1 else scanline s + 1)
       else scanline s)"
    and "scanline_end (beatNTSC s) = (if x s + 1 = scanline_end s then 341 else scanline_end s)"
    and "VBlankState (beatNTSC s) =
      (if x s + 1 = scanline_end s \<and> scanline s + 1 = 261 then -5
       else if x s + 1 = scanline_end s \<and> scanline s + 1 = 241 then 2
       else VBlankState (vblank_step s))"
    and "dispctrl (reg (beatNTSC s)) = 0"
    and "mode (beatNTSC s) = mode s"
    and "status (reg (beatNTSC s)) =
      (if scanline s = 260 \<and> 328 \<le> x s \<and> x s \<le> 339
       then unset_bit 6 (status (reg (pre_graphics s))) else status (reg (pre_graphics s)))"
proof -
  have h: "beat_head s = pre_graphics s"
    using assms by (simp add: beat_head_def graphics_idle pre_graphics_fields)
  show "x (beatNTSC s) = (if x s + 1 = scanline_end s then 0 else x s + 1)"
    and "scanline (beatNTSC s) =
      (if x s + 1 = scanline_end s then (if scanline s + 1 = 261 then -1 else scanline s + 1)
       else scanline s)"
    and "scanline_end (beatNTSC s) = (if x s + 1 = scanline_end s then 341 else scanline_end s)"
    and "VBlankState (beatNTSC s) =
      (if x s + 1 = scanline_end s \<and> scanline s + 1 = 261 then -5
       else if x s + 1 = scanline_end s \<and> scanline s + 1 = 241 then 2
       else VBlankState (vblank_step s))"
    and "dispctrl (reg (beatNTSC s)) = 0"
    and "mode (beatNTSC s) = mode s"
    and "status (reg (beatNTSC s)) =
      (if scanline s = 260 \<and> 328 \<le> x s \<and> x s \<le> 339
       then unset_bit 6 (status (reg (pre_graphics s))) else status (reg (pre_graphics s)))"
    using assms
    by (simp_all add: beatNTSC_def h Let_def next_column_def pre_graphics_fields pre_graphics_more
        set_SP0hit_def assign_bit_def)
qed

lemma idle_frame_beat:
  assumes "idle_frame s" and "frame_position s + 1 < 262 * 341"
  shows "idle_frame (beatNTSC s)" and "frame_position (beatNTSC s) = frame_position s + 1"
proof -
  from assms(1) have d: "dispctrl (reg s) = 0"
    by (simp add: idle_frame_def)
  have nm: "nmi (beatNTSC s) = nmi s"
    using assms(1) by (simp add: beatNTSC_tail beat_head_fields idle_frame_def InVBlank_def)
  have 1: "\<not> (x s + 1 = 341 \<and> scanline s + 1 = 241)"
    using assms by (auto simp add: frame_position_def idle_frame_def split: if_splits)
  have sc: "sysctrl (reg (beatNTSC s)) = sysctrl (reg s)"
    by (simp add: beatNTSC_tail beat_head_fields)
  show "idle_frame (beatNTSC s)"
    using assms(1) 1 nm sc
    by (auto simp add: idle_frame_def beatNTSC_idle [OF d] pre_graphics_fields vblank_step_def)
  show "frame_position (beatNTSC s) = frame_position s + 1"
    using assms(1) 1
    by (auto simp add: frame_position_def idle_frame_def beatNTSC_idle [OF d])
qed

lemma idle_frame_beats:
  assumes "idle_frame s" and "frame_position s = 0" and "int n < 262 * 341"
  shows "idle_frame ((beatNTSC ^^ n) s) \<and> frame_position ((beatNTSC ^^ n) s) = int n"
  using assms(3)
proof (induction n)
  case 0
  with assms show ?case by simp
next
  case (Suc n)
  then have ih: "idle_frame ((beatNTSC ^^ n) s)" "frame_position ((beatNTSC ^^ n) s) = int n"
    by simp_all
  from Suc.prems ih(2) have "frame_position ((beatNTSC ^^ n) s) + 1 < 262 * 341"
    by simp
  from idle_frame_beat [OF ih(1) this] ih(2) show ?case
    by simp
qed

lemma sysctrl_beats: "sysctrl (reg ((beatNTSC ^^ n) s)) = sysctrl (reg s)"
  by (induction n) (simp_all add: beatNTSC_tail beat_head_fields)

lemma mode_beatNTSC: "mode (beatNTSC s) = mode s"
proof -
  have "mode (beatNTSC s) = mode (beat_head s)"
    by (simp add: beatNTSC_def Let_def next_column_def)
  also have "\<dots> = mode (pre_graphics s)"
    using beat_head_frame [of s] by (simp add: gfx_frame_def)
  finally show ?thesis
    by (simp add: pre_graphics_more)
qed

lemma mode_beatsNTSC: "mode ((beatNTSC ^^ n) s) = mode s"
  by (induction n) (simp_all add: mode_beatNTSC)

lemma Ticks_NTSC: "mode s = NTSC \<Longrightarrow> (Tick ^^ n) s = (beatNTSC ^^ (3 * n)) s"
proof (induction n)
  case 0
  show ?case by simp
next
  case (Suc n)
  then have "(Tick ^^ Suc n) s = Tick ((beatNTSC ^^ (3 * n)) s)"
    by simp
  also have "\<dots> = (beatNTSC ^^ 3) ((beatNTSC ^^ (3 * n)) s)"
    using Suc.prems by (simp add: Tick_def TickNTSC_def mode_beatsNTSC)
  also have "\<dots> = (beatNTSC ^^ (3 + 3 * n)) s"
    by (simp only: funpow_add o_apply)
  finally show ?case
    by (simp add: add.commute)
qed

lemma nmi_enabled_on_idle: "idle_frame nmi_enabled_on" "frame_position nmi_enabled_on = 0"
  by (simp_all add: idle_frame_def frame_position_def nmi_enabled_on_def Write_def Let_def
      RefreshOpenBus_def set_basenta_def power_on_def Power_def Initialize_def zero_ppu_def)

lemma beat_head_SP0hit:
  "VBlankState s \<noteq> -5 \<Longrightarrow> SP0hit (reg s) \<Longrightarrow> SP0hit (reg (beat_head s))"
  using bit7_frame(2) [OF beat_head_frame, of s]
  by (simp add: SP0hit_def pre_graphics_fields bit_simps)

subsection \<open>The sprite pipeline\<close>

lemma store_counters:
  "sprinpos (store l v s) = sprinpos s" "sproutpos (store l v s) = sproutpos s"
  "sprrenpos (store l v s) = sprrenpos s"
  by (cases l; simp add: store_def)+

lemma sprite_bounds_register_interface:
  "sprite_bounds (Initialize s) = sprite_bounds s" "sprite_bounds (Power s) = sprite_bounds s"
  "sprite_bounds (Reset s) = sprite_bounds s" "sprite_bounds (snd (Read a s)) = sprite_bounds s"
  "sprite_bounds (Write a b s) = sprite_bounds s"
  by (simp_all add: sprite_bounds_def Initialize_def Power_def Reset_def Read_def Write_def
      Let_def RefreshOpenBus_def advance_vaddr_def store_counters)

lemma sprite_bounds_beat:
  assumes "sprite_bounds s"
  shows "sprite_bounds (beatNTSC s)" "sprite_bounds (beatPAL s)"
  using beat_head_bounds [OF assms]
  by (simp_all add: sprite_bounds_def beatNTSC_tail beatPAL_tail)

lemma reach_sprite_bounds: "reach s0 s \<Longrightarrow> sprite_bounds s0 \<Longrightarrow> sprite_bounds s"
proof (induction rule: reach.induct)
  case (reach_host s g n c m)
  then show ?case by (simp add: sprite_bounds_def)
qed (simp_all add: sprite_bounds_register_interface sprite_bounds_beat)

lemma reach_beats:
  assumes "reach s0 s"
  shows "reach s0 ((beatNTSC ^^ n) s)" and "reach s0 ((beatPAL ^^ n) s)"
  using assms by (induction n) (auto intro: reach.intros)

lemma reach_Tick: "reach s0 s \<Longrightarrow> reach s0 (Tick s)"
  by (cases "mode s") (simp_all add: Tick_def TickNTSC_def TickPAL_def reach_beats)

lemma sprite_bounds_beats:
  assumes "sprite_bounds s"
  shows "sprite_bounds ((beatNTSC ^^ n) s)" and "sprite_bounds ((beatPAL ^^ n) s)"
  using assms by (induction n) (auto intro: sprite_bounds_beat)

lemma sprite_bounds_Tick: "sprite_bounds s \<Longrightarrow> sprite_bounds (Tick s)"
  by (cases "mode s") (simp_all add: Tick_def TickNTSC_def TickPAL_def sprite_bounds_beats)

lemma rendering_tick_line_start:
  assumes "x s = 0"
  shows "sproutpos (rendering_tick s) = 0" "sprrenpos (rendering_tick s) = sprrenpos s"
proof -
  have f: "sproutpos (fetch_phase s) = 0" "sprrenpos (fetch_phase s) = sprrenpos s"
    "x (fetch_phase s) = 0"
    using assms by (simp_all add: fetch_phase_def c_rem_def point_to_nametable_def Let_def)
  show "sproutpos (rendering_tick s) = 0" "sprrenpos (rendering_tick s) = sprrenpos s"
    by (simp_all add: rendering_tick_def sprite_evaluation_def f)
qed

lemma beat_head_line_start:
  assumes "x s = 0" and "scanline s < 240" and "ShowBGSP (reg s) \<noteq> 0"
  shows "sproutpos (beat_head s) = 0" "sprrenpos (beat_head s) = sprrenpos s"
proof -
  have p: "x (pre_graphics s) = 0" "scanline (pre_graphics s) < 240"
    "ShowBGSP (reg (pre_graphics s)) \<noteq> 0"
    using assms by (simp_all add: pre_graphics_fields ShowBGSP_def)
  show "sproutpos (beat_head s) = 0" "sprrenpos (beat_head s) = sprrenpos s"
    using p by (simp_all add: beat_head_def graphics_def Let_def render_pixel_counters
        rendering_tick_line_start pre_graphics_fields)
qed

subsection \<open>Interleaving the pattern bytes\<close>

lemma stage_bit:
  fixes p m0 m1 m2 :: u32
  shows "bit ((p AND m0) OR drop_bit k (p AND m1) OR push_bit k (p AND m2)) n \<longleftrightarrow>
     (bit p n \<and> bit m0 n) \<or> (bit p (k + n) \<and> bit m1 (k + n))
     \<or> (k \<le> n \<and> n < 32 \<and> bit p (n - k) \<and> bit m2 (n - k))"
  by (auto simp add: bit_and_iff bit_or_iff bit_drop_bit_eq bit_push_bit_iff dest: bit_imp_le_length)

lemma swap_stages_bit:
  "bit (swap_stages p) n \<longleftrightarrow>
    (let b2 = (\<lambda>n. (bit p n \<and> bit (0xF00F::u32) n) \<or> (bit p (4 + n) \<and> bit (0x0F00::u32) (4 + n))
                   \<or> (4 \<le> n \<and> n < 32 \<and> bit p (n - 4) \<and> bit (0x00F0::u32) (n - 4)));
         b1 = (\<lambda>n. (b2 n \<and> bit (0xC3C3::u32) n) \<or> (b2 (2 + n) \<and> bit (0x3030::u32) (2 + n))
                   \<or> (2 \<le> n \<and> n < 32 \<and> b2 (n - 2) \<and> bit (0x0C0C::u32) (n - 2)))
     in (b1 n \<and> bit (0x9999::u32) n) \<or> (b1 (1 + n) \<and> bit (0x4444::u32) (1 + n))
                   \<or> (1 \<le> n \<and> n < 32 \<and> b1 (n - 1) \<and> bit (0x2222::u32) (n - 1)))"
  unfolding swap_stages_def Let_def stage_bit ..

lemma swap_stages_bits:
  fixes low high :: u8
  defines "p \<equiv> swap_stages (ucast low OR push_bit 8 (ucast high))"
  shows "bit p 0 = bit low 0" "bit p (Suc 0) = bit high 0"
        "bit p 2 = bit low 1" "bit p 3 = bit high 1"
        "bit p 4 = bit low 2" "bit p 5 = bit high 2"
        "bit p 6 = bit low 3" "bit p 7 = bit high 3"
        "bit p 8 = bit low 4" "bit p 9 = bit high 4"
        "bit p 10 = bit low 5" "bit p 11 = bit high 5"
        "bit p 12 = bit low 6" "bit p 13 = bit high 6"
        "bit p 14 = bit low 7" "bit p 15 = bit high 7"
  unfolding p_def swap_stages_bit
  by (auto simp add: bit_simps dest: bit_imp_le_length)

lemma below_8: "k < 8 \<Longrightarrow> k = 0 \<or> k = 1 \<or> k = 2 \<or> k = 3 \<or> k = 4 \<or> k = 5 \<or> k = 6 \<or> k = (7::nat)"
  by arith

lemma swap_stages_alternate:
  fixes low high :: u8
  assumes "k < 8"
  shows "bit (swap_stages (ucast low OR push_bit 8 (ucast high))) (2 * k) = bit low k"
    and "bit (swap_stages (ucast low OR push_bit 8 (ucast high))) (Suc (2 * k)) = bit high k"
  using below_8 [OF assms] by (auto simp add: swap_stages_bits)

lemma mask16_bit:
  fixes m :: u32
  assumes "take_bit j m = m" and "bit m n"
  shows "n < j"
  using assms by (metis bit_take_bit_iff)

lemma swap_stages_upper:
  assumes "16 \<le> n"
  shows "\<not> bit (swap_stages p) n"
proof -
  have a: "\<not> bit (0x9999::u32) n"
    using mask16_bit [of 16 "0x9999" n] assms by auto
  have b: "\<not> bit (0x4444::u32) (1 + n)"
    using mask16_bit [of 16 "0x4444" "1 + n"] assms by auto
  have c: "\<not> bit (0x2222::u32) (n - 1)"
    using mask16_bit [of 14 "0x2222" "n - 1"] assms by auto
  show ?thesis
    unfolding swap_stages_def Let_def stage_bit using a b c by blast
qed

lemma deinterleave_bits:
  "bit (fst (deinterleave t)) n \<longleftrightarrow> n < 8 \<and> bit t (2 * n)"
  "bit (snd (deinterleave t)) n \<longleftrightarrow> n < 8 \<and> bit t (2 * n + 1)"
  by (auto simp add: deinterleave_def bit_horner_sum_bit_word_iff)

lemma pattern_pixel_bits:
  "bit (pattern_pixel t k) n \<longleftrightarrow> n < 2 \<and> bit t (2 * k + n)"
proof -
  have three: "(3::u8) = mask 2" by (simp add: mask_eq_exp_minus_1)
  show ?thesis
    unfolding pattern_pixel_def three
    by (auto simp add: bit_simps mult.commute dest: bit_imp_le_length)
qed

lemma pattern_pixel_interleaved:
  fixes low high :: u8
  assumes "k < 8"
  shows "pattern_pixel (ucast (swap_stages (ucast low OR push_bit 8 (ucast high)))) k
    = of_bool (bit low k) + 2 * of_bool (bit high k)"
proof (rule bit_word_eqI)
  fix n :: nat
  assume "n < LENGTH(8)"
  let ?p = "swap_stages (ucast low OR push_bit 8 (ucast high))"
  have rhs: "bit (of_bool (bit low k) + 2 * of_bool (bit high k) :: u8) n
      \<longleftrightarrow> (n = 0 \<and> bit low k) \<or> (n = 1 \<and> bit high k)"
    by (cases "bit low k"; cases "bit high k"; cases n; simp add: bit_simps bit_Suc bit_0)
  have k16: "2 * k < 16" "Suc (2 * k) < 16"
    using assms by simp_all
  consider "n = 0" | "n = 1" | "2 \<le> n" by arith
  then show "bit (pattern_pixel (ucast ?p) k) n
      \<longleftrightarrow> bit (of_bool (bit low k) + 2 * of_bool (bit high k) :: u8) n"
  proof cases
    case 1
    then show ?thesis
      unfolding rhs pattern_pixel_bits using assms k16
      by (simp add: bit_simps swap_stages_alternate)
  next
    case 2
    then show ?thesis
      unfolding rhs pattern_pixel_bits using assms k16
      by (simp add: bit_simps swap_stages_alternate)
  next
    case 3
    then show ?thesis
      unfolding rhs pattern_pixel_bits by simp
  qed
qed

lemma vblank_after_frame:
  "status (reg ((Tick ^^ 29781) nmi_enabled_on)) = 0x80"
  "sysctrl (reg ((Tick ^^ 29781) nmi_enabled_on)) = 0x80"
  "\<not> nmi ((Tick ^^ 29781) nmi_enabled_on)"
proof -
  define s1 where "s1 = (beatNTSC ^^ 89341) nmi_enabled_on"
  define s2 where "s2 = beatNTSC s1"
  define s3 where "s3 = beatNTSC s2"
  have m: "mode nmi_enabled_on = NTSC"
    using nmi_enabled_on_idle(1) by (simp add: idle_frame_def)
  have n: "3 * 29781 = Suc (Suc 89341)"
    by simp
  have run: "(Tick ^^ 29781) nmi_enabled_on = s3"
    unfolding Ticks_NTSC [OF m] n s3_def s2_def s1_def
    by (simp only: funpow.simps o_apply)
  have "idle_frame s1 \<and> frame_position s1 = int 89341"
    unfolding s1_def by (rule idle_frame_beats [OF nmi_enabled_on_idle]) simp
  then have i: "idle_frame s1" and p: "frame_position s1 = 89341"
    by simp_all
  define r where "r = (if scanline s1 \<ge> 241 then scanline s1 - 241 else scanline s1 + 21)"
  from i p have "r * 341 + x s1 = 261 * 341 + 340" "0 \<le> x s1" "x s1 < 341"
    by (simp_all add: frame_position_def r_def idle_frame_def)
  then have "r = 261 \<and> x s1 = 340"
    by (cases "r \<le> 260"; cases "262 \<le> r"; linarith)
  with i have "scanline s1 = 240 \<and> x s1 = 340"
    by (auto simp add: r_def idle_frame_def split: if_splits)
  moreover have "sysctrl (reg s1) = 0x80"
    unfolding s1_def
    by (simp add: sysctrl_beats nmi_enabled_on_def Write_def Let_def RefreshOpenBus_def)
  ultimately have at: "scanline s1 = 240" "x s1 = 340" "scanline_end s1 = 341" "dispctrl (reg s1) = 0"
    "status (reg s1) = 0" "sysctrl (reg s1) = 0x80" "\<not> nmi s1" "VBlankState s1 \<le> 0"
    using i by (simp_all add: idle_frame_def)
  have e: "VBlankState s2 = 2" "sysctrl (reg s2) = 0x80" "status (reg s2) = 0" "\<not> nmi s2"
  proof -
    show "VBlankState s2 = 2" "status (reg s2) = 0"
      using at(8) unfolding s2_def
      by (simp_all add: beatNTSC_idle [OF at(4)] at(1,2,3,5) pre_graphics_fields)
    show "sysctrl (reg s2) = 0x80" "\<not> nmi s2"
      unfolding s2_def
      by (simp_all add: beatNTSC_tail(3,4) beat_head_fields at InVBlank_def)
  qed
  have d2: "dispctrl (reg s2) = 0"
    unfolding s2_def by (simp add: beatNTSC_idle [OF at(4)])
  have "status (reg s3) = 0x80"
    unfolding s3_def by (simp add: beatNTSC_idle [OF d2] pre_graphics_fields e)
  moreover have "sysctrl (reg s3) = 0x80"
    by (simp add: s3_def beatNTSC_tail beat_head_fields e)
  moreover have "\<not> nmi s3"
    by (simp add: s3_def beatNTSC_tail beat_head_fields e)
  ultimately show "status (reg ((Tick ^^ 29781) nmi_enabled_on)) = 0x80"
    "sysctrl (reg ((Tick ^^ 29781) nmi_enabled_on)) = 0x80"
    "\<not> nmi ((Tick ^^ 29781) nmi_enabled_on)"
    unfolding run by simp_all
qed

lemma reach_Ticks: "reach s0 s \<Longrightarrow> reach s0 ((Tick ^^ n) s)"
  by (induction n) (simp_all add: reach_Tick)

lemma decay_beats:
  assumes "0 \<le> open_bus_decay_timer s"
  shows "open_bus_decay_timer ((beatNTSC ^^ n) s) = max 0 (open_bus_decay_timer s - int n)
    \<and> open_bus ((beatNTSC ^^ n) s)
        = (if 0 < open_bus_decay_timer s \<and> open_bus_decay_timer s \<le> int n then 0 else open_bus s)"
proof (induction n)
  case 0
  with assms show ?case by auto
next
  case (Suc n)
  then show ?case
    using assms by (auto simp add: beatNTSC_tail beat_head_fields)
qed

lemma open_bus_after_frame: "open_bus ((Tick ^^ 29781) nmi_enabled_on) = 0"
proof -
  have m: "mode nmi_enabled_on = NTSC"
    using nmi_enabled_on_idle(1) by (simp add: idle_frame_def)
  have t: "open_bus_decay_timer nmi_enabled_on = 77777"
    by (simp add: nmi_enabled_on_def Write_def Let_def RefreshOpenBus_def)
  from decay_beats [of nmi_enabled_on "3 * 29781"] t show ?thesis
    unfolding Ticks_NTSC [OF m] by simp
qed

subsection \<open>A frame up to the first rendered line\<close>

lemma tile_decode_mode_upd [simp]:
  "tile_decode_mode (s\<lparr>tilepat := v\<rparr>) = tile_decode_mode s"
  "tile_decode_mode (s\<lparr>ioaddr := a\<rparr>) = tile_decode_mode s"
  by (simp_all add: tile_decode_mode_def)

lemma point_to_nametable_sprites:
  "OAM (point_to_nametable s) = OAM s" "sprtmp (point_to_nametable s) = sprtmp s"
  "OAMaddr (reg (point_to_nametable s)) = (if x s = 0 \<and> ShowSP (reg s) then 0 else OAMaddr (reg s))"
  "sprinpos (point_to_nametable s) = (if x s = 0 then 0 else sprinpos s)"
  "sproutpos (point_to_nametable s) = (if x s = 0 then 0 else sproutpos s)"
  "sprrenpos (point_to_nametable s) = (if x s = 256 \<and> ShowBG (reg s) then 0 else sprrenpos s)"
  "scanline_end (point_to_nametable s) = scanline_end s"
  by (simp_all add: point_to_nametable_def Let_def ShowBG_def ShowSP_def)

lemma point_to_attribute_sprites:
  assumes "x s \<noteq> 0" "x s \<noteq> 256"
  shows "OAM (point_to_attribute s) = OAM s" "sprtmp (point_to_attribute s) = sprtmp s"
    "OAMaddr (reg (point_to_attribute s)) = OAMaddr (reg s)"
    "sprinpos (point_to_attribute s) = sprinpos s" "sproutpos (point_to_attribute s) = sproutpos s"
    "sprrenpos (point_to_attribute s) = sprrenpos s"
    "scanline_end (point_to_attribute s) = scanline_end s"
  using assms by (simp_all add: point_to_attribute_def Let_def point_to_nametable_sprites)

lemma nametable_access_sprites:
  "OAM (nametable_access s) = OAM s" "sprtmp (nametable_access s) = sprtmp s"
  "OAMaddr (reg (nametable_access s)) = OAMaddr (reg s)"
  "sprinpos (nametable_access s) = sprinpos s" "sproutpos (nametable_access s) = sproutpos s"
  "sprrenpos (nametable_access s) = sprrenpos s"
  "scanline s \<noteq> -1 \<Longrightarrow> scanline_end (nametable_access s) = scanline_end s"
  by (simp_all add: nametable_access_def Let_def)

lemma attribute_access_sprites:
  "OAM (attribute_access s) = OAM s" "sprtmp (attribute_access s) = sprtmp s"
  "OAMaddr (reg (attribute_access s)) = OAMaddr (reg s)"
  "sprinpos (attribute_access s) = sprinpos s" "sproutpos (attribute_access s) = sproutpos s"
  "sprrenpos (attribute_access s) = sprrenpos s"
  "scanline_end (attribute_access s) = scanline_end s"
  by (simp_all add: attribute_access_def Let_def)

lemma pattern_low_sprites:
  "OAM (pattern_low s) = OAM s" "sprtmp (pattern_low s) = sprtmp s"
  "OAMaddr (reg (pattern_low s)) = OAMaddr (reg s)"
  "sprinpos (pattern_low s) = sprinpos s" "sproutpos (pattern_low s) = sproutpos s"
  "sprrenpos (pattern_low s) = sprrenpos s"
  "scanline_end (pattern_low s) = scanline_end s"
  by (simp_all add: pattern_low_def)

lemma pattern_high_sprites:
  "OAM (pattern_high s) = OAM s" "sprtmp (pattern_high s) = sprtmp s"
  "OAMaddr (reg (pattern_high s)) = OAMaddr (reg s)"
  "sprinpos (pattern_high s) = sprinpos s" "sproutpos (pattern_high s) = sproutpos s"
  "sprrenpos (pattern_high s) =
     (if \<not> tile_decode_mode s \<and> sprrenpos s < sproutpos s then sprrenpos s + 1 else sprrenpos s)"
  "scanline_end (pattern_high s) = scanline_end s"
  by (simp_all add: pattern_high_def Let_def)

lemma phase_columns: "c_rem c 8 \<noteq> 0 \<Longrightarrow> c \<noteq> 0 \<and> c \<noteq> 256"
  by (auto simp add: c_rem_def)

lemma fetch_phase_cases:
  obtains "c_rem (x s) 8 = 0" "fetch_phase s = point_to_nametable s"
  | "c_rem (x s) 8 \<noteq> 0" "c_rem (x s) 8 \<noteq> 7" "fetch_phase s = point_to_attribute s"
  | "c_rem (x s) 8 \<noteq> 0" "c_rem (x s) 8 \<noteq> 7" "fetch_phase s = nametable_access s"
  | "c_rem (x s) 8 \<noteq> 0" "c_rem (x s) 8 \<noteq> 7" "fetch_phase s = attribute_access s"
  | "c_rem (x s) 8 \<noteq> 0" "c_rem (x s) 8 \<noteq> 7" "fetch_phase s = pattern_low s"
  | "c_rem (x s) 8 = 7" "fetch_phase s = pattern_high s"
  | "c_rem (x s) 8 \<noteq> 0" "c_rem (x s) 8 \<noteq> 7" "fetch_phase s = s"
  unfolding fetch_phase_def Let_def by (cases "c_rem (x s) 8 \<in> {0, 1, 2, 3, 5, 7}") auto

lemmas component_sprites = point_to_nametable_sprites point_to_attribute_sprites
  nametable_access_sprites attribute_access_sprites pattern_low_sprites pattern_high_sprites

lemma fetch_phase_sprite_fields:
  "OAM (fetch_phase s) = OAM s" "sprtmp (fetch_phase s) = sprtmp s"
  "OAMaddr (reg (fetch_phase s)) = (if x s = 0 \<and> ShowSP (reg s) then 0 else OAMaddr (reg s))"
  "sprinpos (fetch_phase s) = (if x s = 0 then 0 else sprinpos s)"
  "sproutpos (fetch_phase s) = (if x s = 0 then 0 else sproutpos s)"
proof -
  have k: "c_rem (x s) 8 \<noteq> 0 \<Longrightarrow> x s \<noteq> 0 \<and> x s \<noteq> 256"
    by (rule phase_columns)
  have "OAM (fetch_phase s) = OAM s \<and> sprtmp (fetch_phase s) = sprtmp s
    \<and> OAMaddr (reg (fetch_phase s)) = (if x s = 0 \<and> ShowSP (reg s) then 0 else OAMaddr (reg s))
    \<and> sprinpos (fetch_phase s) = (if x s = 0 then 0 else sprinpos s)
    \<and> sproutpos (fetch_phase s) = (if x s = 0 then 0 else sproutpos s)"
    by (cases s rule: fetch_phase_cases) (use k in \<open>simp_all add: component_sprites\<close>)
  then show "OAM (fetch_phase s) = OAM s" "sprtmp (fetch_phase s) = sprtmp s"
    "OAMaddr (reg (fetch_phase s)) = (if x s = 0 \<and> ShowSP (reg s) then 0 else OAMaddr (reg s))"
    "sprinpos (fetch_phase s) = (if x s = 0 then 0 else sprinpos s)"
    "sproutpos (fetch_phase s) = (if x s = 0 then 0 else sproutpos s)"
    by simp_all
qed

lemma fetch_phase_sprrenpos:
  "sprrenpos (fetch_phase s) =
     (if x s = 256 \<and> ShowBG (reg s) then 0
      else if c_rem (x s) 8 = 7 \<and> \<not> tile_decode_mode s \<and> sprrenpos s < sproutpos s
      then sprrenpos s + 1 else sprrenpos s)"
proof -
  have k: "c_rem (x s) 8 \<noteq> 0 \<Longrightarrow> x s \<noteq> 0 \<and> x s \<noteq> 256"
    by (rule phase_columns)
  show ?thesis
    by (cases s rule: fetch_phase_cases) (use k in \<open>simp_all add: component_sprites\<close>)
qed

lemma fetch_phase_scanline_end:
  "scanline s \<noteq> -1 \<Longrightarrow> scanline_end (fetch_phase s) = scanline_end s"
proof -
  assume l: "scanline s \<noteq> -1"
  have k: "c_rem (x s) 8 \<noteq> 0 \<Longrightarrow> x s \<noteq> 0 \<and> x s \<noteq> 256"
    by (rule phase_columns)
  show ?thesis
    by (cases s rule: fetch_phase_cases) (use k l in \<open>simp_all add: component_sprites\<close>)
qed

lemma sprite_evaluation_more:
  "OAM (sprite_evaluation s) = OAM s" "scanline_end (sprite_evaluation s) = scanline_end s"
  by (simp_all add: sprite_evaluation_def Let_def eval_y_def eval_index_def eval_attr_def
      eval_x_def OAM2_put_def)

lemma render_pixel_more:
  "OAM (snd (render_pixel s)) = OAM s" "scanline_end (snd (render_pixel s)) = scanline_end s"
  "sprtmp (snd (render_pixel s)) = sprtmp s"
  "OAMaddr (reg (snd (render_pixel s))) = OAMaddr (reg s)"
  by (simp_all add: render_pixel_def Let_def set_SP0hit_def)

lemma pre_graphics_sprites:
  "OAM (pre_graphics s) = OAM s" "sprtmp (pre_graphics s) = sprtmp s"
  "OAMaddr (reg (pre_graphics s)) = OAMaddr (reg s)"
  by (simp_all add: pre_graphics_def open_bus_decay_def vblank_step_def vblank_edge_def Let_def
      set_InVBlank_def)

lemma beatNTSC_more:
  "OAM (beatNTSC s) = OAM (beat_head s)" "sprtmp (beatNTSC s) = sprtmp (beat_head s)"
  "OAMaddr (reg (beatNTSC s)) = OAMaddr (reg (beat_head s))"
  "dispctrl (reg (beatNTSC s)) = dispctrl (reg (beat_head s))"
  by (simp_all add: beatNTSC_def Let_def next_column_def set_SP0hit_def)

lemma beatNTSC_position:
  assumes "scanline s < 240"
  shows "x (beatNTSC s) = (if x s + 1 = scanline_end (beat_head s) then 0 else x s + 1)"
    and "scanline (beatNTSC s) =
      (if x s + 1 = scanline_end (beat_head s) then scanline s + 1 else scanline s)"
    and "scanline_end (beatNTSC s) =
      (if x s + 1 = scanline_end (beat_head s) then 341 else scanline_end (beat_head s))"
  using assms
  by (simp_all add: beatNTSC_def Let_def next_column_def beat_head_fields)


lemma beat_head_rendering:
  assumes "0 \<le> scanline s" "scanline s < 240" "dispctrl (reg s) = 0x18"
  shows "OAM (beat_head s) = OAM s"
    and "scanline_end (beat_head s) = scanline_end s"
    and "sprtmp (beat_head s) = sprtmp (sprite_evaluation (fetch_phase (pre_graphics s)))"
    and "OAMaddr (reg (beat_head s)) = OAMaddr (reg (sprite_evaluation (fetch_phase (pre_graphics s))))"
    and "sprinpos (beat_head s) = sprinpos (sprite_evaluation (fetch_phase (pre_graphics s)))"
    and "sproutpos (beat_head s) = sproutpos (sprite_evaluation (fetch_phase (pre_graphics s)))"
    and "sprrenpos (beat_head s) = sprrenpos (sprite_evaluation (fetch_phase (pre_graphics s)))"
proof -
  define p where "p = pre_graphics s"
  have p: "scanline p = scanline s" "dispctrl (reg p) = 0x18" "scanline_end p = scanline_end s"
    "OAM p = OAM s"
    using assms by (simp_all add: p_def pre_graphics_fields pre_graphics_more pre_graphics_sprites)
  have r: "scanline (rendering_tick p) = scanline s"
    using rendering_tick_frame [of p] by (simp add: gfx_frame_def p)
  have g: "graphics p = (if x (rendering_tick p) < 256 then snd (render_pixel (rendering_tick p))
                         else rendering_tick p)"
    using assms(1,2) by (simp add: graphics_def Let_def p r ShowBGSP_def ShowBG_def ShowSP_def)
  have e: "scanline_end (rendering_tick p) = scanline_end s"
    using assms(1) by (simp add: rendering_tick_def sprite_evaluation_more fetch_phase_scanline_end p)
  show "OAM (beat_head s) = OAM s"
    and "scanline_end (beat_head s) = scanline_end s"
    and "sprtmp (beat_head s) = sprtmp (sprite_evaluation (fetch_phase (pre_graphics s)))"
    and "OAMaddr (reg (beat_head s)) = OAMaddr (reg (sprite_evaluation (fetch_phase (pre_graphics s))))"
    and "sprinpos (beat_head s) = sprinpos (sprite_evaluation (fetch_phase (pre_graphics s)))"
    and "sproutpos (beat_head s) = sproutpos (sprite_evaluation (fetch_phase (pre_graphics s)))"
    and "sprrenpos (beat_head s) = sprrenpos (sprite_evaluation (fetch_phase (pre_graphics s)))"
    unfolding beat_head_def p_def [symmetric] g
    by (simp_all add: render_pixel_more render_pixel_counters e)
       (simp_all add: rendering_tick_def sprite_evaluation_more fetch_phase_sprite_fields p)
qed


lemma fetch_phase_view:
  assumes "line_view s l c a i ou r" "0 < c"
  shows "x (fetch_phase (pre_graphics s)) = c" "scanline (fetch_phase (pre_graphics s)) = l"
    "sysctrl (reg (fetch_phase (pre_graphics s))) = 0"
    "OAM (fetch_phase (pre_graphics s)) = (\<lambda>k. 0)" "sprtmp (fetch_phase (pre_graphics s)) = 0"
    "OAMaddr (reg (fetch_phase (pre_graphics s))) = a"
    "sprinpos (fetch_phase (pre_graphics s)) = i" "sproutpos (fetch_phase (pre_graphics s)) = ou"
    "sprrenpos (fetch_phase (pre_graphics s)) =
       (if c = 256 then 0
        else if c_rem c 8 = 7 \<and> \<not> tile_decode_mode (pre_graphics s) \<and> r < ou then r + 1 else r)"
proof -
  define p where "p = pre_graphics s"
  have p: "x p = c" "scanline p = l" "sysctrl (reg p) = 0" "dispctrl (reg p) = 0x18"
    "OAM p = (\<lambda>k. 0)" "sprtmp p = 0" "OAMaddr (reg p) = a" "sprinpos p = i" "sproutpos p = ou"
    "sprrenpos p = r"
    using assms(1) by (simp_all add: p_def line_view_def pre_graphics_fields pre_graphics_sprites)
  have f: "x (fetch_phase p) = c" "scanline (fetch_phase p) = l" "sysctrl (reg (fetch_phase p)) = 0"
    using fetch_phase_frame [of p] by (simp_all add: gfx_frame_def p)
  show "x (fetch_phase (pre_graphics s)) = c" "scanline (fetch_phase (pre_graphics s)) = l"
    "sysctrl (reg (fetch_phase (pre_graphics s))) = 0"
    "OAM (fetch_phase (pre_graphics s)) = (\<lambda>k. 0)" "sprtmp (fetch_phase (pre_graphics s)) = 0"
    "OAMaddr (reg (fetch_phase (pre_graphics s))) = a"
    "sprinpos (fetch_phase (pre_graphics s)) = i" "sproutpos (fetch_phase (pre_graphics s)) = ou"
    "sprrenpos (fetch_phase (pre_graphics s)) =
       (if c = 256 then 0
        else if c_rem c 8 = 7 \<and> \<not> tile_decode_mode (pre_graphics s) \<and> r < ou then r + 1 else r)"
    unfolding p_def [symmetric] using assms(2)
    by (simp_all add: f fetch_phase_sprite_fields fetch_phase_sprrenpos p ShowBG_def)
qed

lemma tile_decode_mode_bit: "tile_decode_mode s \<longleftrightarrow> bit (0x10FFFF :: u32) (nat (drop_bit 4 (x s)))"
  by (simp add: tile_decode_mode_def bit_iff_and_push_bit_not_eq_0)

lemma mode_mask: "(0x10FFFF :: u32) = mask 16 OR push_bit 20 1"
  by (simp add: mask_eq_exp_minus_1)

lemma tile_decode_mode_low: "0 \<le> x s \<Longrightarrow> x s < 256 \<Longrightarrow> tile_decode_mode s"
proof -
  assume "0 \<le> x s" "x s < 256"
  then have "nat (x s div 16) < 16"
    by simp
  then show ?thesis
    unfolding tile_decode_mode_bit mode_mask by (simp add: bit_simps drop_bit_eq_div)
qed

lemma tile_decode_mode_263: "x s = 263 \<Longrightarrow> \<not> tile_decode_mode s"
  unfolding tile_decode_mode_bit mode_mask by (simp add: bit_simps drop_bit_eq_div)

lemma and3_cases:
  fixes a :: u8
  shows "a AND 3 = 0 \<or> a AND 3 = 1 \<or> a AND 3 = 2 \<or> a AND 3 = 3"
proof -
  have "a AND 3 \<le> 3"
    by (rule word_and_le1)
  then have "unat (a AND 3) \<le> 3"
    by (simp add: word_le_nat_alt)
  then have "unat (a AND 3) = 0 \<or> unat (a AND 3) = 1 \<or> unat (a AND 3) = 2 \<or> unat (a AND 3) = 3"
    by arith
  then show ?thesis
    by (simp add: word_unat_eq_iff)
qed

lemma line_view_visible:
  assumes "line_view s 0 c a i ou r" "0 < c" "c < 256" "i < 64" "ou < 8"
    "a AND 3 = 3 \<longrightarrow> i \<noteq> 2"
  shows "line_view (beatNTSC s) 0 (c + 1)
           (if 64 \<le> c \<and> odd c then a + 1 else a)
           (if 64 \<le> c \<and> odd c \<and> a AND 3 = 0 then i + 1 else i)
           (if 64 \<le> c \<and> odd c \<and> a AND 3 = 3 then ou + 1 else ou) r"
proof -
  define f where "f = fetch_phase (pre_graphics s)"
  have v: "scanline s = 0" "x s = c" "scanline_end s = 341" "dispctrl (reg s) = 0x18"
    "sysctrl (reg s) = 0" "mode s = NTSC"
    using assms(1) by (simp_all add: line_view_def)
  have t: "tile_decode_mode (pre_graphics s)"
    using assms(2,3) by (simp add: tile_decode_mode_low pre_graphics_fields v)
  have f: "x f = c" "scanline f = 0" "sysctrl (reg f) = 0" "OAM f = (\<lambda>k. 0)" "sprtmp f = 0"
    "OAMaddr (reg f) = a" "sprinpos f = i" "sproutpos f = ou" "sprrenpos f = r"
    unfolding f_def using assms(3) t by (simp_all add: fetch_phase_view [OF assms(1,2)])
  have o: "c_rem c 2 \<noteq> 0 \<longleftrightarrow> odd c"
    using assms(2) by (simp add: c_rem_def) presburger
  have e: "sprtmp (sprite_evaluation f) = 0"
    "OAMaddr (reg (sprite_evaluation f)) = (if 64 \<le> c \<and> odd c then a + 1 else a)"
    "sprinpos (sprite_evaluation f) = (if 64 \<le> c \<and> odd c \<and> a AND 3 = 0 then i + 1 else i)"
    "sproutpos (sprite_evaluation f) = (if 64 \<le> c \<and> odd c \<and> a AND 3 = 3 then ou + 1 else ou)"
    "sprrenpos (sprite_evaluation f) = r"
    using assms(3,4,5,6) and3_cases [of a]
    by (auto simp add: sprite_evaluation_def Let_def eval_y_def eval_index_def eval_attr_def
        eval_x_def OAM2_put_def f o SPsize_def)
  have b: "0 \<le> scanline s" "scanline s < 240"
    by (simp_all add: v)
  show ?thesis
    using assms(3)
    by (simp add: line_view_def beatNTSC_position beatNTSC_more beatNTSC_tail mode_beatNTSC
        beat_head_fields beat_head_frame [unfolded gfx_frame_def] pre_graphics_fields
        beat_head_rendering [OF b v(4)] v e [unfolded f_def] assms(1) [unfolded line_view_def])
qed


lemma line_view_blank:
  assumes "line_view s 0 c a i ou r" "256 \<le> c" "c < 340" "r < ou \<longrightarrow> c \<le> 263"
  shows "line_view (beatNTSC s) 0 (c + 1) a i ou (if c = 256 then 0 else if c = 263 \<and> r < ou then r + 1 else r)"
proof -
  define f where "f = fetch_phase (pre_graphics s)"
  have v: "scanline s = 0" "x s = c" "scanline_end s = 341" "dispctrl (reg s) = 0x18"
    "sysctrl (reg s) = 0" "mode s = NTSC"
    using assms(1) by (simp_all add: line_view_def)
  have c0: "0 < c"
    using assms(2) by simp
  have t: "c = 263 \<Longrightarrow> \<not> tile_decode_mode (pre_graphics s)"
    by (simp add: tile_decode_mode_263 pre_graphics_fields v)
  have m: "c_rem c 8 = 7 \<and> c \<le> 263 \<longleftrightarrow> c = 263"
    using assms(2) by (simp add: c_rem_def) presburger
  have f: "x f = c" "scanline f = 0" "sysctrl (reg f) = 0" "OAM f = (\<lambda>k. 0)" "sprtmp f = 0"
    "OAMaddr (reg f) = a" "sprinpos f = i" "sproutpos f = ou"
    "sprrenpos f = (if c = 256 then 0 else if c = 263 \<and> r < ou then r + 1 else r)"
    unfolding f_def using assms(4) t m by (auto simp add: fetch_phase_view [OF assms(1) c0])
  have e: "sprtmp (sprite_evaluation f) = 0" "OAMaddr (reg (sprite_evaluation f)) = a"
    "sprinpos (sprite_evaluation f) = i" "sproutpos (sprite_evaluation f) = ou"
    "sprrenpos (sprite_evaluation f) = (if c = 256 then 0 else if c = 263 \<and> r < ou then r + 1 else r)"
    using assms(2) by (simp_all add: sprite_evaluation_def f)
  have b: "0 \<le> scanline s" "scanline s < 240"
    by (simp_all add: v)
  show ?thesis
    using assms(3)
    by (simp add: line_view_def beatNTSC_position beatNTSC_more beatNTSC_tail mode_beatNTSC
        beat_head_fields beat_head_frame [unfolded gfx_frame_def] pre_graphics_fields
        beat_head_rendering [OF b v(4)] v e [unfolded f_def] assms(1) [unfolded line_view_def])
qed

lemma line_view_wrap:
  assumes "line_view s 0 340 a i ou ou"
  shows "line_view (beatNTSC s) 1 0 a i ou ou"
proof -
  define f where "f = fetch_phase (pre_graphics s)"
  have v: "scanline s = 0" "x s = 340" "scanline_end s = 341" "dispctrl (reg s) = 0x18"
    "sysctrl (reg s) = 0" "mode s = NTSC"
    using assms(1) by (simp_all add: line_view_def)
  have f: "x f = 340" "scanline f = 0" "sysctrl (reg f) = 0" "OAM f = (\<lambda>k. 0)" "sprtmp f = 0"
    "OAMaddr (reg f) = a" "sprinpos f = i" "sproutpos f = ou" "sprrenpos f = ou"
    unfolding f_def using fetch_phase_view [OF assms(1), simplified] by simp_all
  have e: "sprtmp (sprite_evaluation f) = 0" "OAMaddr (reg (sprite_evaluation f)) = a"
    "sprinpos (sprite_evaluation f) = i" "sproutpos (sprite_evaluation f) = ou"
    "sprrenpos (sprite_evaluation f) = ou"
    by (simp_all add: sprite_evaluation_def f)
  have b: "0 \<le> scanline s" "scanline s < 240"
    by (simp_all add: v)
  show ?thesis
    by (simp add: line_view_def beatNTSC_position beatNTSC_more beatNTSC_tail mode_beatNTSC
        beat_head_fields beat_head_frame [unfolded gfx_frame_def] pre_graphics_fields
        beat_head_rendering [OF b v(4)] v e [unfolded f_def] assms(1) [unfolded line_view_def])
qed

lemma line_view_blank_beats:
  assumes "line_view s 0 257 a i 1 0" and "n \<le> 83"
  shows "line_view ((beatNTSC ^^ n) s) 0 (257 + int n) a i 1 (if 257 + int n \<le> 263 then 0 else 1)"
  using assms(2)
proof (induction n)
  case 0
  with assms(1) show ?case by simp
next
  case (Suc n)
  then have ih: "line_view ((beatNTSC ^^ n) s) 0 (257 + int n) a i 1 (if 257 + int n \<le> 263 then 0 else 1)"
    and n: "n < 83"
    by simp_all
  from n have "line_view (beatNTSC ((beatNTSC ^^ n) s)) 0 (257 + int n + 1) a i 1
      (if 257 + int n = 256 then 0
       else if 257 + int n = 263 \<and> (if 257 + int n \<le> 263 then 0 else 1) < (1::nat)
       then (if 257 + int n \<le> 263 then 0 else 1) + 1 else (if 257 + int n \<le> 263 then 0 else 1))"
    by (intro line_view_blank [OF ih]) simp_all
  then show ?case
    by (simp add: add.commute add.left_commute split: if_splits)
qed


lemma beatNTSC_idle_sprites:
  assumes "dispctrl (reg s) = 0"
  shows "OAM (beatNTSC s) = OAM s" "sprtmp (beatNTSC s) = sprtmp s"
    "OAMaddr (reg (beatNTSC s)) = OAMaddr (reg s)" "sprinpos (beatNTSC s) = sprinpos s"
    "sproutpos (beatNTSC s) = sproutpos s" "sprrenpos (beatNTSC s) = sprrenpos s"
proof -
  have h: "beat_head s = pre_graphics s"
    using assms by (simp add: beat_head_def graphics_idle pre_graphics_fields)
  show "OAM (beatNTSC s) = OAM s" "sprtmp (beatNTSC s) = sprtmp s"
    "OAMaddr (reg (beatNTSC s)) = OAMaddr (reg s)" "sprinpos (beatNTSC s) = sprinpos s"
    "sproutpos (beatNTSC s) = sproutpos s" "sprrenpos (beatNTSC s) = sprrenpos s"
    by (simp_all add: beatNTSC_more beatNTSC_tail h pre_graphics_sprites pre_graphics_fields)
qed

lemma idle_beats_sprites:
  assumes "dispctrl (reg s) = 0"
  shows "dispctrl (reg ((beatNTSC ^^ n) s)) = 0 \<and> OAM ((beatNTSC ^^ n) s) = OAM s
    \<and> sprtmp ((beatNTSC ^^ n) s) = sprtmp s
    \<and> OAMaddr (reg ((beatNTSC ^^ n) s)) = OAMaddr (reg s)
    \<and> sprinpos ((beatNTSC ^^ n) s) = sprinpos s \<and> sproutpos ((beatNTSC ^^ n) s) = sproutpos s
    \<and> sprrenpos ((beatNTSC ^^ n) s) = sprrenpos s"
proof (induction n)
  case 0
  with assms show ?case by simp
next
  case (Suc n)
  then have d: "dispctrl (reg ((beatNTSC ^^ n) s)) = 0"
    by simp
  from Suc show ?case
    by (simp add: beatNTSC_idle_sprites [OF d] beatNTSC_idle(5) [OF d])
qed

lemma power_on_fields:
  "idle_frame power_on" "frame_position power_on = 0" "dispctrl (reg power_on) = 0"
  "sysctrl (reg power_on) = 0" "OAM power_on = (\<lambda>k. 0)" "sprtmp power_on = 0"
  "OAMaddr (reg power_on) = 0" "sprinpos power_on = 0" "sproutpos power_on = 0"
  "sprrenpos power_on = 0" "mode power_on = NTSC"
  by (simp_all add: idle_frame_def frame_position_def power_on_def Power_def Initialize_def
      zero_ppu_def)

lemma rendering_on_view: "line_view rendering_on 0 246 0 0 0 0"
proof -
  define s1 where "s1 = (beatNTSC ^^ 7407) power_on"
  have run: "(Tick ^^ 2469) power_on = s1"
    unfolding Ticks_NTSC [OF power_on_fields(11)] s1_def by simp
  have "idle_frame s1 \<and> frame_position s1 = int 7407"
    unfolding s1_def by (rule idle_frame_beats [OF power_on_fields(1,2)]) simp
  then have i: "idle_frame s1" and p: "frame_position s1 = 7407"
    by simp_all
  define r where "r = (if scanline s1 \<ge> 241 then scanline s1 - 241 else scanline s1 + 21)"
  from i p have "r * 341 + x s1 = 21 * 341 + 246" "0 \<le> x s1" "x s1 < 341"
    by (simp_all add: frame_position_def r_def idle_frame_def)
  then have "r = 21 \<and> x s1 = 246"
    by (cases "r \<le> 20"; cases "22 \<le> r"; linarith)
  with i have at: "scanline s1 = 0" "x s1 = 246"
    by (auto simp add: r_def idle_frame_def split: if_splits)
  from i have more: "scanline_end s1 = 341" "mode s1 = NTSC"
    by (simp_all add: idle_frame_def)
  have c: "sysctrl (reg s1) = 0"
    unfolding s1_def by (simp add: sysctrl_beats power_on_fields)
  from idle_beats_sprites [OF power_on_fields(3), of 7407]
  have sp: "OAM s1 = (\<lambda>k. 0)" "sprtmp s1 = 0" "OAMaddr (reg s1) = 0" "sprinpos s1 = 0"
    "sproutpos s1 = 0" "sprrenpos s1 = 0"
    unfolding s1_def by (simp_all add: power_on_fields)
  show ?thesis
    unfolding rendering_on_def run
    by (simp add: line_view_def Write_def Let_def RefreshOpenBus_def at more c sp)
qed


lemma line_view_evaluation:
  assumes "line_view s 0 246 0 0 0 0"
  shows "line_view ((beatNTSC ^^ 10) s) 0 256 5 2 1 0"
proof -
  define t1 where "t1 = beatNTSC s"
  define t2 where "t2 = beatNTSC t1"
  define t3 where "t3 = beatNTSC t2"
  define t4 where "t4 = beatNTSC t3"
  define t5 where "t5 = beatNTSC t4"
  define t6 where "t6 = beatNTSC t5"
  define t7 where "t7 = beatNTSC t6"
  define t8 where "t8 = beatNTSC t7"
  define t9 where "t9 = beatNTSC t8"
  define t10 where "t10 = beatNTSC t9"
  have n: "(10::nat) = Suc (Suc (Suc (Suc (Suc (Suc (Suc (Suc (Suc (Suc 0)))))))))"
    by simp
  have run: "(beatNTSC ^^ 10) s = t10"
    unfolding n t10_def t9_def t8_def t7_def t6_def t5_def t4_def t3_def t2_def t1_def by (simp only: funpow.simps o_apply id_apply)
  from line_view_visible [OF assms]
  have "line_view t1 0 247 0 0 0 0"
    unfolding t1_def by simp
  from line_view_visible [OF this]
  have "line_view t2 0 248 1 1 0 0"
    unfolding t2_def by simp
  from line_view_visible [OF this]
  have "line_view t3 0 249 1 1 0 0"
    unfolding t3_def by simp
  from line_view_visible [OF this]
  have "line_view t4 0 250 2 1 0 0"
    unfolding t4_def by simp
  from line_view_visible [OF this]
  have "line_view t5 0 251 2 1 0 0"
    unfolding t5_def by simp
  from line_view_visible [OF this]
  have "line_view t6 0 252 3 1 0 0"
    unfolding t6_def by simp
  from line_view_visible [OF this]
  have "line_view t7 0 253 3 1 0 0"
    unfolding t7_def by simp
  from line_view_visible [OF this]
  have "line_view t8 0 254 4 1 1 0"
    unfolding t8_def by simp
  from line_view_visible [OF this]
  have "line_view t9 0 255 4 1 1 0"
    unfolding t9_def by simp
  from line_view_visible [OF this]
  have "line_view t10 0 256 5 (Suc (Suc 0)) 1 0"
    unfolding t10_def by simp
  then have "line_view t10 0 256 5 2 1 0"
    by (simp only: numeral_2_eq_2)
  then show ?thesis
    unfolding run .
qed

lemma line_start_view: "line_view line_start 1 0 5 2 1 1"
proof -
  define s1 where "s1 = (beatNTSC ^^ 10) rendering_on"
  define s2 where "s2 = beatNTSC s1"
  define s3 where "s3 = (beatNTSC ^^ 83) s2"
  have n: "(95::nat) = Suc (83 + (Suc 10))"
    by simp
  have run: "line_start = beatNTSC s3"
    unfolding line_start_def n s3_def s2_def s1_def by (simp only: funpow.simps funpow_add o_apply)
  have "line_view s1 0 256 5 2 1 0"
    unfolding s1_def by (rule line_view_evaluation [OF rendering_on_view])
  from line_view_blank [OF this] have "line_view s2 0 257 5 2 1 0"
    unfolding s2_def by simp
  from line_view_blank_beats [OF this, of 83] have "line_view s3 0 340 5 2 1 1"
    unfolding s3_def by simp
  then show ?thesis
    unfolding run by (rule line_view_wrap)
qed

lemma second_line_beat: "second_line = beatNTSC line_start"
proof -
  have m: "mode rendering_on = NTSC"
    using rendering_on_view by (simp add: line_view_def)
  have n: "3 * 32 = Suc 95"
    by simp
  show ?thesis
    unfolding second_line_def line_start_def Ticks_NTSC [OF m] n by (simp only: funpow.simps o_apply)
qed

lemma reach_second_line: "reach zero_ppu second_line"
  unfolding second_line_def rendering_on_def power_on_def
  by (intro reach_Ticks reach.intros)

lemma second_line_counters: "sproutpos second_line = 0" "sprrenpos second_line = 1"
proof -
  have l: "x line_start = 0" "scanline line_start < 240" "ShowBGSP (reg line_start) \<noteq> 0"
    "sprrenpos line_start = 1"
    using line_start_view by (simp_all add: line_view_def ShowBGSP_def ShowBG_def ShowSP_def)
  show "sproutpos second_line = 0" "sprrenpos second_line = 1"
    unfolding second_line_beat
    by (simp_all add: beatNTSC_tail beat_head_line_start [OF l(1,2,3)] l)
qed

subsection \<open>The beat that opens the pre-render line\<close>

lemma store_position:
  "VBlankState (store l v s) = VBlankState s" "scanline (store l v s) = scanline s"
  "x (store l v s) = x s"
  by (cases l; simp add: store_def)+

lemma wrap_view_register_interface:
  "wrap_view (Initialize s)" "wrap_view (Power s) = wrap_view s"
  "wrap_view (Reset s) = wrap_view s" "wrap_view s \<Longrightarrow> wrap_view (snd (Read a s))"
  "wrap_view (Write a b s) = wrap_view s"
  by (simp_all add: wrap_view_def Initialize_def Power_def Reset_def Read_def Write_def
      Let_def RefreshOpenBus_def advance_vaddr_def store_position)

lemma beat_head_VBlankState: "VBlankState (beat_head s) = VBlankState (vblank_step s)"
  using beat_head_frame [of s] by (simp add: gfx_frame_def pre_graphics_more)

lemma wrap_view_beat:
  assumes "wrap_view s"
  shows "wrap_view (beatNTSC s)" "wrap_view (beatPAL s)"
  using assms
  by (auto simp add: wrap_view_def beatNTSC_def beatPAL_def Let_def next_column_def
      beat_head_VBlankState beat_head_fields vblank_step_def)

lemma reach_wrap_view: "reach s0 s \<Longrightarrow> wrap_view s"
proof (induction rule: reach.induct)
  case (reach_host s g n c m)
  then show ?case by (simp add: wrap_view_def)
qed (simp_all add: wrap_view_register_interface wrap_view_beat)


lemma fetch_phase_status: "status (reg (fetch_phase s)) = status (reg s)"
  by (cases s rule: fetch_phase_cases)
     (simp_all add: point_to_nametable_def point_to_attribute_def nametable_access_def
        attribute_access_def pattern_low_def pattern_high_def Let_def)

lemma sprite_evaluation_status:
  "x s < 64 \<Longrightarrow> status (reg (sprite_evaluation s)) = status (reg s)"
  "SP0hit (reg (sprite_evaluation s)) = SP0hit (reg s)"
  by (simp_all add: sprite_evaluation_def Let_def eval_y_def eval_index_def eval_attr_def
      eval_x_def OAM2_put_def SP0hit_def set_SPoverflow_def assign_bit_def bit_simps)

lemma rendering_tick_status:
  "x s < 64 \<Longrightarrow> status (reg (rendering_tick s)) = status (reg s)"
  "SP0hit (reg (rendering_tick s)) = SP0hit (reg s)"
proof -
  have f: "x (fetch_phase s) = x s" "SP0hit (reg (fetch_phase s)) = SP0hit (reg s)"
    using fetch_phase_frame [of s] by (simp_all add: gfx_frame_def SP0hit_def fetch_phase_status)
  show "x s < 64 \<Longrightarrow> status (reg (rendering_tick s)) = status (reg s)"
    by (simp add: rendering_tick_def sprite_evaluation_status(1) f fetch_phase_status)
  show "SP0hit (reg (rendering_tick s)) = SP0hit (reg s)"
    by (simp add: rendering_tick_def sprite_evaluation_status(2) f)
qed

lemma graphics_off_screen:
  "scanline s < 0 \<or> 240 \<le> scanline s \<Longrightarrow> SP0hit (reg (graphics s)) = SP0hit (reg s)"
  "scanline s < 0 \<Longrightarrow> x s < 64 \<Longrightarrow> status (reg (graphics s)) = status (reg s)"
  using rendering_tick_frame [of s]
  by (auto simp add: graphics_def Let_def rendering_tick_status gfx_frame_def)

lemma beat_wrap_status:
  assumes "VBlankState s = -5"
  shows "status (reg (pre_graphics s)) = 0"
    and "scanline s < 0 \<or> 240 \<le> scanline s \<Longrightarrow> \<not> SP0hit (reg (beatNTSC s))"
    and "scanline s < 0 \<or> 240 \<le> scanline s \<Longrightarrow> \<not> SP0hit (reg (beatPAL s))"
    and "scanline s < 0 \<Longrightarrow> x s < 64 \<Longrightarrow> status (reg (beatNTSC s)) = 0"
    and "scanline s < 0 \<Longrightarrow> x s < 64 \<Longrightarrow> status (reg (beatPAL s)) = 0"
proof -
  show p: "status (reg (pre_graphics s)) = 0"
    using assms by (simp add: pre_graphics_fields)
  have h: "\<not> SP0hit (reg (beat_head s))" if "scanline s < 0 \<or> 240 \<le> scanline s"
    using that graphics_off_screen(1) [of "pre_graphics s"] p
    by (simp add: beat_head_def pre_graphics_fields SP0hit_def)
  show "\<not> SP0hit (reg (beatNTSC s))" if "scanline s < 0 \<or> 240 \<le> scanline s"
    using h [OF that] by (simp add: SP0hit_def beatNTSC_tail bit_simps)
  show "\<not> SP0hit (reg (beatPAL s))" if "scanline s < 0 \<or> 240 \<le> scanline s"
    using h [OF that] by (simp add: SP0hit_def beatPAL_tail)
  have z: "status (reg (beat_head s)) = 0" if "scanline s < 0" "x s < 64"
    using that graphics_off_screen(2) [of "pre_graphics s"] p
    by (simp add: beat_head_def pre_graphics_fields)
  show "status (reg (beatNTSC s)) = 0" if "scanline s < 0" "x s < 64"
    using z [OF that] that by (simp add: beatNTSC_tail beat_head_fields)
  show "status (reg (beatPAL s)) = 0" if "scanline s < 0" "x s < 64"
    using z [OF that] by (simp add: beatPAL_tail)
qed

lemma prerender_entry_fields:
  "VBlankState prerender_entry = -5" "scanline prerender_entry = -1" "x prerender_entry = 0"
  "reach zero_ppu prerender_entry"
proof -
  define s1 where "s1 = (beatNTSC ^^ 6819) power_on"
  have n: "(6820::nat) = Suc 6819"
    by simp
  have run: "prerender_entry = beatNTSC s1"
    unfolding prerender_entry_def n s1_def by (simp only: funpow.simps o_apply)
  have "idle_frame s1 \<and> frame_position s1 = int 6819"
    unfolding s1_def by (rule idle_frame_beats [OF power_on_fields(1,2)]) simp
  then have i: "idle_frame s1" and p: "frame_position s1 = 6819"
    by simp_all
  define r where "r = (if scanline s1 \<ge> 241 then scanline s1 - 241 else scanline s1 + 21)"
  from i p have "r * 341 + x s1 = 19 * 341 + 340" "0 \<le> x s1" "x s1 < 341"
    by (simp_all add: frame_position_def r_def idle_frame_def)
  then have "r = 19 \<and> x s1 = 340"
    by (cases "r \<le> 18"; cases "20 \<le> r"; linarith)
  with i have at: "scanline s1 = 260" "x s1 = 340"
    by (auto simp add: r_def idle_frame_def split: if_splits)
  from i have more: "scanline_end s1 = 341" "dispctrl (reg s1) = 0"
    by (simp_all add: idle_frame_def)
  show "VBlankState prerender_entry = -5" "scanline prerender_entry = -1" "x prerender_entry = 0"
    unfolding run by (simp_all add: beatNTSC_idle [OF more(2)] at more)
  show "reach zero_ppu prerender_entry"
    unfolding prerender_entry_def power_on_def by (intro reach_beats reach.intros)
qed

section \<open>The claims\<close>

text \<open>
  C1. A read of port 2 leaves InVBlank and the write toggle false, and sets
  \<^verbatim>\<open>VBlankState\<close> to 0 unless it was -5, which it keeps. The returned byte is
  \<^verbatim>\<open>reg.status | (open_bus_ & 0x1F)\<close>: its upper three bits are the status bits before the
  read, and in every state of a run (the low five bits of the status byte are then zero)
  it is those three bits merged with the low five bits of the open-bus latch.
\<close>

theorem Read_status_port:
  assumes "address AND 0x7 = 2"
  shows "\<not> InVBlank (reg (snd (Read address s)))
     \<and> \<not> offset_toggle (snd (Read address s))
     \<and> VBlankState (snd (Read address s)) = (if VBlankState s = -5 then -5 else 0)
     \<and> fst (Read address s) = status (reg s) OR (open_bus s AND 0x1F)
     \<and> fst (Read address s) AND 0xE0 = status (reg s) AND 0xE0
     \<and> (reach s0 s \<longrightarrow> fst (Read address s) = (status (reg s) AND 0xE0) OR (open_bus s AND 0x1F))"
proof -
  have res: "fst (Read address s) = status (reg s) OR (open_bus s AND 0x1F)"
    using assms by (simp add: Read_def Let_def)
  have post: "\<not> InVBlank (reg (snd (Read address s)))" "\<not> offset_toggle (snd (Read address s))"
    "VBlankState (snd (Read address s)) = (if VBlankState s = -5 then -5 else 0)"
    using assms by (simp_all add: Read_def Let_def set_InVBlank_def assign_bit_def InVBlank_def bit_simps)
  have "fst (Read address s) = (status (reg s) AND 0xE0) OR (open_bus s AND 0x1F)" if "reach s0 s"
    using reach_status_clean [OF that] unfolding res status_clean_def by (rule clean_high)
  with post res show ?thesis
    by (simp add: high3)
qed

theorem Read_status_port_witness:
  "(0x2002 :: u16) AND 0x7 = 2 \<and> reach zero_ppu ((Tick ^^ 29781) nmi_enabled_on)
    \<and> InVBlank (reg ((Tick ^^ 29781) nmi_enabled_on))
    \<and> fst (Read 0x2002 ((Tick ^^ 29781) nmi_enabled_on)) = 0x80
    \<and> \<not> InVBlank (reg (snd (Read 0x2002 ((Tick ^^ 29781) nmi_enabled_on))))"
proof -
  have port: "(0x2002 :: u16) AND 0x7 = 2" by simp
  have r: "reach zero_ppu ((Tick ^^ 29781) nmi_enabled_on)"
    unfolding nmi_enabled_on_def power_on_def by (intro reach_Ticks reach.intros)
  from Read_status_port [OF port, of "(Tick ^^ 29781) nmi_enabled_on" zero_ppu] port r
  show ?thesis
    by (simp add: vblank_after_frame open_bus_after_frame InVBlank_def)
qed

text \<open>
  C2. Starting with the write toggle clear, two writes to port 6 of the bytes \<open>hi\<close> and
  \<open>lo\<close> leave the current VRAM address equal to \<^verbatim>\<open>((hi & 0x3F) << 8) | lo\<close>; the address
  equals the temporary scroll latch, and also the low 14 bits of that latch.
\<close>

theorem Write_vaddr_twice:
  assumes "\<not> offset_toggle s" and "a1 AND 0x7 = 6" and "a2 AND 0x7 = 6"
  shows "raw (vaddr (Write a2 lo (Write a1 hi s))) = push_bit 8 (ucast (hi AND 0x3F)) OR ucast lo
    \<and> raw (vaddr (Write a2 lo (Write a1 hi s))) = raw (scroll (Write a2 lo (Write a1 hi s)))
    \<and> raw (vaddr (Write a2 lo (Write a1 hi s)))
        = take_bit 14 (raw (scroll (Write a2 lo (Write a1 hi s))))"
proof -
  let ?s1 = "Write a1 hi s"
  let ?s2 = "Write a2 lo ?s1"
  have first: "offset_toggle ?s1"
    "raw (scroll ?s1) = field_set 8 8 (ucast (hi AND 0x3F)) (raw (scroll s))"
    using assms by (simp_all add: Write_def RefreshOpenBus_def Let_def set_vaddrhi_def)
  have second: "raw (vaddr ?s2) = field_set 0 8 (ucast lo) (raw (scroll ?s1))"
    "raw (scroll ?s2) = field_set 0 8 (ucast lo) (raw (scroll ?s1))"
    using assms first(1)
    by (simp_all add: Write_def [of a2] RefreshOpenBus_def Let_def set_vaddrlo_def)
  have addr: "raw (vaddr ?s2) = push_bit 8 (ucast (hi AND 0x3F)) OR ucast lo"
    unfolding second first field_set_hi_lo
    by (rule bit_word_eqI) (auto simp add: bit_simps dest: bit_imp_le_length)
  have latch: "raw (vaddr ?s2) = raw (scroll ?s2)"
    unfolding second ..
  have six: "(0x3F::u8) = mask 6"
    by (simp add: mask_eq_exp_minus_1)
  have "take_bit 14 (push_bit 8 (ucast (hi AND 0x3F)) OR ucast lo :: u16)
      = push_bit 8 (ucast (hi AND 0x3F)) OR ucast lo"
    unfolding six
    by (rule bit_word_eqI) (auto simp add: bit_simps dest: bit_imp_le_length)
  with addr latch have "raw (vaddr ?s2) = take_bit 14 (raw (scroll ?s2))"
    by simp
  with addr latch show ?thesis
    by blast
qed

theorem Write_vaddr_twice_witness:
  "\<not> offset_toggle power_on \<and> (0x2006 :: u16) AND 0x7 = 6
    \<and> raw (vaddr (Write 0x2006 0x34 (Write 0x2006 0xD2 power_on))) = 0x1234
    \<and> raw (scroll (Write 0x2006 0x34 (Write 0x2006 0xD2 power_on))) = 0x1234"
proof -
  have toggle: "\<not> offset_toggle power_on"
    by (simp add: power_on_def Power_def)
  have port: "(0x2006 :: u16) AND 0x7 = 6"
    by simp
  from Write_vaddr_twice [OF toggle port port, of "0x34" "0xD2"] toggle port
  show ?thesis by auto
qed

text \<open>
  C3. A read of port 7 with the VRAM address outside the palette range returns the
  latched \<^verbatim>\<open>read_buffer\<close> and loads the buffer with the byte of cartridge memory at the
  address. With the address in the palette range it returns the palette byte at the
  address, merged with the upper two bits of the open-bus latch, and loads the buffer from
  the slot of the fourth nametable page at the address masked with 0x2FFF. In both cases
  the address then grows by 1, or by 32 when the auto-increment bit is set.
\<close>

theorem Read_data_port:
  assumes "address AND 0x7 = 7"
  shows "(raw (vaddr s) AND 0x3F00 = 0x3F00 \<longrightarrow>
           (\<exists>i<32. mmap (gamepak s) (uint (raw (vaddr s))) = Palette i
              \<and> fst (Read address s) = (open_bus s AND 0xC0) OR (palette s i AND 0x3F))
         \<and> (\<exists>off<0x400. mmap (gamepak s) (uint (raw (vaddr s) AND 0x2FFF)) = Cart (Nta (gamepak s) 3 + off)
              \<and> read_buffer (snd (Read address s)) = mem (gamepak s) (Nta (gamepak s) 3 + off)))
     \<and> (raw (vaddr s) AND 0x3F00 \<noteq> 0x3F00 \<longrightarrow>
           fst (Read address s) = read_buffer s
         \<and> (\<exists>a. mmap (gamepak s) (uint (raw (vaddr s))) = Cart a
              \<and> read_buffer (snd (Read address s)) = mem (gamepak s) a))
     \<and> raw (vaddr (snd (Read address s))) = raw (vaddr s) + (if Inc (reg s) then 32 else 1)"
proof -
  have inc: "raw (vaddr (snd (Read address s))) = raw (vaddr s) + (if Inc (reg s) then 32 else 1)"
    using assms by (simp add: Read_def Let_def advance_vaddr_def RefreshOpenBus_def)
  have pal: "(\<exists>i<32. mmap (gamepak s) (uint (raw (vaddr s))) = Palette i
              \<and> fst (Read address s) = (open_bus s AND 0xC0) OR (palette s i AND 0x3F))
         \<and> (\<exists>off<0x400. mmap (gamepak s) (uint (raw (vaddr s) AND 0x2FFF)) = Cart (Nta (gamepak s) 3 + off)
              \<and> read_buffer (snd (Read address s)) = mem (gamepak s) (Nta (gamepak s) 3 + off))"
    if p: "raw (vaddr s) AND 0x3F00 = 0x3F00"
  proof -
    from mmap_palette [OF p] obtain i where i: "i < 32" "mmap (gamepak s) (uint (raw (vaddr s))) = Palette i"
      by blast
    from mmap_nametable_mirror [OF p] obtain off where
      off: "off < 0x400" "mmap (gamepak s) (uint (raw (vaddr s) AND 0x2FFF)) = Cart (Nta (gamepak s) 3 + off)"
      by blast
    have "fst (Read address s) = (open_bus s AND 0xC0) OR (palette s i AND 0x3F)"
      using assms p i(2) by (simp add: Read_def Let_def load_def)
    moreover have "read_buffer (snd (Read address s)) = mem (gamepak s) (Nta (gamepak s) 3 + off)"
      using assms p off(2) by (simp add: Read_def Let_def load_def advance_vaddr_def RefreshOpenBus_def)
    ultimately show ?thesis
      using i off by blast
  qed
  have vram: "fst (Read address s) = read_buffer s
         \<and> (\<exists>a. mmap (gamepak s) (uint (raw (vaddr s))) = Cart a
              \<and> read_buffer (snd (Read address s)) = mem (gamepak s) a)"
    if p: "raw (vaddr s) AND 0x3F00 \<noteq> 0x3F00"
  proof -
    from mmap_not_palette [OF p] obtain a where a: "mmap (gamepak s) (uint (raw (vaddr s))) = Cart a"
      by blast
    have "fst (Read address s) = read_buffer s"
      using assms p by (simp add: Read_def Let_def)
    moreover have "read_buffer (snd (Read address s)) = mem (gamepak s) a"
      using assms p a by (simp add: Read_def Let_def load_def advance_vaddr_def RefreshOpenBus_def)
    ultimately show ?thesis
      using a by blast
  qed
  from inc pal vram show ?thesis
    by blast
qed

theorem Read_data_port_witness:
  "(0x2007 :: u16) AND 0x7 = 7 \<and> raw (vaddr at_palette) AND 0x3F00 = 0x3F00
   \<and> fst (Read 0x2007 at_palette) = 0x09
   \<and> read_buffer (snd (Read 0x2007 at_palette)) = 0xFF
   \<and> raw (vaddr (snd (Read 0x2007 at_palette))) = 0x3F01
   \<and> raw (vaddr power_on) AND 0x3F00 \<noteq> 0x3F00
   \<and> fst (Read 0x2007 power_on) = read_buffer power_on"
proof -
  have port: "(0x2007 :: u16) AND 0x7 = 7"
    by simp
  have s: "raw (vaddr at_palette) = 0x3F00" "open_bus at_palette = 0" "palette at_palette 0 = 0x09"
    "\<not> Inc (reg at_palette)" "gamepak at_palette = memset_NRAM 0xFF zero_gamepak"
    by (simp_all add: at_palette_def Write_def RefreshOpenBus_def Let_def set_vaddrhi_def
        set_vaddrlo_def field_set_def power_on_def Power_def Initialize_def zero_ppu_def
        memcpy_palette_def arr_def Inc_def mask_numeral)
  have p: "raw (vaddr power_on) AND 0x3F00 \<noteq> 0x3F00"
    by (simp add: power_on_def Power_def)
  have m: "mmap g 0x3F00 = Palette 0"
    "mmap (memset_NRAM 0xFF zero_gamepak) 0x2F00 = Cart 0x2700" for g
    by (simp_all add: mmap_def memset_NRAM_def zero_gamepak_def)
  have nram: "mem (memset_NRAM 0xFF zero_gamepak) 0x2700 = 0xFF"
    by (simp add: memset_NRAM_def zero_gamepak_def)
  from Read_data_port [OF port, of at_palette] Read_data_port [OF port, of power_on] port p
  show ?thesis
    by (auto simp add: s m nram)
qed

text \<open>
  C4, as amended. Writing a byte \<open>b\<close> through \<^verbatim>\<open>mmap\<close> to one of the addresses 0x3F00,
  0x3F04, 0x3F08, 0x3F0C makes \<open>b\<close> the value read at that address and at its mirror 0x10
  above it, and a write to the mirror is read at the address: each of the four entries
  shares its slot with the entry 0x10 above it. The four entries do not share one slot:
  a write to 0x3F04, 0x3F08 or 0x3F0C leaves the value read at 0x3F00 as it was, and any
  two of the four map to different slots, so that a write to one of them or to its mirror
  leaves the values read at the other three and at their mirrors as they were.
\<close>

theorem palette_backdrop_mirror:
  assumes "a \<in> {0x3F00, 0x3F04, 0x3F08, 0x3F0C}"
  shows "load (store (mmap (gamepak s) a) b s) (mmap (gamepak s) a) = b
    \<and> load (store (mmap (gamepak s) a) b s) (mmap (gamepak s) (a + 0x10)) = b
    \<and> load (store (mmap (gamepak s) (a + 0x10)) b s) (mmap (gamepak s) a) = b
    \<and> (a \<noteq> 0x3F00 \<longrightarrow>
         load (store (mmap (gamepak s) a) b s) (mmap (gamepak s) 0x3F00)
           = load s (mmap (gamepak s) 0x3F00))
    \<and> (c \<in> {0x3F00, 0x3F04, 0x3F08, 0x3F0C} \<and> c \<noteq> a \<longrightarrow>
         mmap (gamepak s) c \<noteq> mmap (gamepak s) a
         \<and> load (store (mmap (gamepak s) a) b s) (mmap (gamepak s) c)
           = load s (mmap (gamepak s) c)
         \<and> load (store (mmap (gamepak s) a) b s) (mmap (gamepak s) (c + 0x10))
           = load s (mmap (gamepak s) (c + 0x10))
         \<and> load (store (mmap (gamepak s) (a + 0x10)) b s) (mmap (gamepak s) c)
           = load s (mmap (gamepak s) c))"
  using assms by (auto simp add: mmap_backdrop load_def store_def)

theorem palette_backdrop_mirror_witness:
  "(0x3F08 :: int) \<in> {0x3F00, 0x3F04, 0x3F08, 0x3F0C}
    \<and> (0x3F0C :: int) \<in> {0x3F00, 0x3F04, 0x3F08, 0x3F0C} \<and> (0x3F0C :: int) \<noteq> 0x3F08
    \<and> load (store (mmap (gamepak power_on) 0x3F08) 0x2A power_on) (mmap (gamepak power_on) 0x3F18) = 0x2A
    \<and> load (store (mmap (gamepak power_on) 0x3F08) 0x2A power_on) (mmap (gamepak power_on) 0x3F00) = 0x09
    \<and> load (store (mmap (gamepak power_on) 0x3F08) 0x2A power_on) (mmap (gamepak power_on) 0x3F0C) = 0x00
    \<and> load (store (mmap (gamepak power_on) 0x3F08) 0x2A power_on) (mmap (gamepak power_on) 0x3F1C) = 0x00"
  using palette_backdrop_mirror [of "0x3F08" power_on "0x2A" "0x3F0C"]
  by (simp add: mmap_backdrop load_def power_on_def Power_def memcpy_palette_def arr_def)

text \<open>
  The claim as stated fails: after power-on the entry at 0x3F00 holds 0x09, and it still
  does after 0x2A is written to 0x3F04.
\<close>

theorem palette_backdrop_not_shared:
  "load (store (mmap (gamepak power_on) 0x3F04) 0x2A power_on) (mmap (gamepak power_on) 0x3F00) \<noteq> 0x2A"
  by (simp add: mmap_backdrop load_def store_def power_on_def Power_def memcpy_palette_def arr_def)

text \<open>
  C5, as amended. Every write, at every address, leaves the written byte in the open-bus
  latch and the decay timer at 77777. A read refreshes the latch with the returned byte
  and resets the timer at ports 4 and 7 only; a read at any other port leaves latch and
  timer as they were. Every beat decrements a timer that is not zero, and clears the
  latch when the timer reaches zero.
\<close>

theorem open_bus_refresh:
  "open_bus (Write a b s) = b \<and> open_bus_decay_timer (Write a b s) = 77777
   \<and> (a AND 0x7 = 4 \<or> a AND 0x7 = 7 \<longrightarrow>
        open_bus (snd (Read a s)) = fst (Read a s) \<and> open_bus_decay_timer (snd (Read a s)) = 77777)
   \<and> (a AND 0x7 \<noteq> 4 \<and> a AND 0x7 \<noteq> 7 \<longrightarrow>
        open_bus (snd (Read a s)) = open_bus s
        \<and> open_bus_decay_timer (snd (Read a s)) = open_bus_decay_timer s)
   \<and> open_bus_decay_timer (beatNTSC s) = (if open_bus_decay_timer s \<noteq> 0 then open_bus_decay_timer s - 1 else 0)
   \<and> open_bus (beatNTSC s) = (if open_bus_decay_timer s = 1 then 0 else open_bus s)
   \<and> open_bus_decay_timer (beatPAL s) = (if open_bus_decay_timer s \<noteq> 0 then open_bus_decay_timer s - 1 else 0)
   \<and> open_bus (beatPAL s) = (if open_bus_decay_timer s = 1 then 0 else open_bus s)"
proof -
  have w: "open_bus (Write a b s) = b \<and> open_bus_decay_timer (Write a b s) = 77777"
    by (simp add: Write_def Let_def RefreshOpenBus_def advance_vaddr_def load_store_same)
  have r1: "open_bus (snd (Read a s)) = fst (Read a s) \<and> open_bus_decay_timer (snd (Read a s)) = 77777"
    if "a AND 0x7 = 4 \<or> a AND 0x7 = 7"
    using that by (auto simp add: Read_def Let_def RefreshOpenBus_def advance_vaddr_def)
  have r2: "open_bus (snd (Read a s)) = open_bus s
        \<and> open_bus_decay_timer (snd (Read a s)) = open_bus_decay_timer s"
    if "a AND 0x7 \<noteq> 4 \<and> a AND 0x7 \<noteq> 7"
    using that by (simp add: Read_def Let_def)
  show ?thesis
    using w r1 r2 by (simp add: beatNTSC_tail beatPAL_tail beat_head_fields)
qed

theorem open_bus_refresh_witness:
  "(0x2007 :: u16) AND 0x7 = 7 \<and> (0x2002 :: u16) AND 0x7 \<noteq> 4 \<and> (0x2002 :: u16) AND 0x7 \<noteq> 7
   \<and> open_bus (Write 0x2007 0x55 power_on) = 0x55
   \<and> open_bus_decay_timer (snd (Read 0x2007 power_on)) = 77777
   \<and> open_bus (snd (Read 0x2002 (Write 0x2007 0x55 power_on))) = open_bus (Write 0x2007 0x55 power_on)
   \<and> open_bus_decay_timer (beatNTSC (Write 0x2007 0x55 power_on)) = 77776
   \<and> open_bus_decay_timer ((beatNTSC ^^ 77776) (Write 0x2007 0x55 power_on)) = 1
   \<and> open_bus ((beatNTSC ^^ 77776) (Write 0x2007 0x55 power_on)) = 0x55
   \<and> open_bus (beatNTSC ((beatNTSC ^^ 77776) (Write 0x2007 0x55 power_on))) = 0"
proof -
  have p7: "(0x2007 :: u16) AND 0x7 = 7" and p2: "(0x2002 :: u16) AND 0x7 \<noteq> 4 \<and> (0x2002 :: u16) AND 0x7 \<noteq> 7"
    by simp_all
  have w: "open_bus_decay_timer (Write 0x2007 0x55 power_on) = 77777"
    "open_bus (Write 0x2007 0x55 power_on) = 0x55"
    using open_bus_refresh [of "0x2007" "0x55" power_on] by simp_all
  have d: "open_bus_decay_timer ((beatNTSC ^^ 77776) (Write 0x2007 0x55 power_on)) = 1"
    "open_bus ((beatNTSC ^^ 77776) (Write 0x2007 0x55 power_on)) = 0x55"
    using decay_beats [of "Write 0x2007 0x55 power_on" 77776] by (simp_all add: w)
  from open_bus_refresh [of "0x2007" "0x55" power_on]
       open_bus_refresh [of "0x2002" "0x55" "Write 0x2007 0x55 power_on"]
       open_bus_refresh [of "0x2007" "0x55" "Write 0x2007 0x55 power_on"]
       open_bus_refresh [of "0x2007" "0x55" "(beatNTSC ^^ 77776) (Write 0x2007 0x55 power_on)"]
       p7 p2 d
  show ?thesis by simp
qed

text \<open>
  The claim as stated fails for a read of port 2: one beat after 0xFF was written to
  port 0, the read returns 0x1F, and the latch still holds 0xFF and the timer 77776.
\<close>

theorem open_bus_read_no_refresh:
  "fst (Read 0x2002 (beatNTSC (Write 0x2000 0xFF power_on))) = 0x1F
   \<and> open_bus (snd (Read 0x2002 (beatNTSC (Write 0x2000 0xFF power_on)))) = 0xFF
   \<and> open_bus_decay_timer (snd (Read 0x2002 (beatNTSC (Write 0x2000 0xFF power_on)))) = 77776"
proof -
  let ?s = "beatNTSC (Write 0x2000 0xFF power_on)"
  have w: "open_bus (Write 0x2000 0xFF power_on) = 0xFF" "open_bus_decay_timer (Write 0x2000 0xFF power_on) = 77777"
     "status (reg (Write 0x2000 0xFF power_on)) = 0" "VBlankState (Write 0x2000 0xFF power_on) = 0"
     "scanline (Write 0x2000 0xFF power_on) = 241"
    by (simp_all add: Write_def RefreshOpenBus_def Let_def power_on_def Power_def Initialize_def)
  have st: "status (reg (beat_head (Write 0x2000 0xFF power_on))) = 0"
    by (simp add: beat_head_def graphics_def pre_graphics_fields w)
  have b: "open_bus ?s = 0xFF" "open_bus_decay_timer ?s = 77776" "status (reg ?s) = 0"
    by (simp_all add: beatNTSC_tail beat_head_fields w st)
  show ?thesis
    by (simp add: Read_def Let_def b)
qed

text \<open>
  C6, as amended. A beat that starts with \<^verbatim>\<open>VBlankState = 0\<close> assigns InVBlank AND
  NMIenabled to the NMI line, and the line then agrees with the two flags after the beat.
  A beat that starts with any other \<^verbatim>\<open>VBlankState\<close> does not write the line: it keeps the
  value of the earlier beat, also when the beat changes InVBlank.
\<close>

theorem nmi_driven_at_rest:
  "(VBlankState s = 0 \<longrightarrow>
      nmi (beatNTSC s) = (InVBlank (reg s) \<and> NMIenabled (reg s))
      \<and> nmi (beatPAL s) = (InVBlank (reg s) \<and> NMIenabled (reg s))
      \<and> nmi (beatNTSC s) = (InVBlank (reg (beatNTSC s)) \<and> NMIenabled (reg (beatNTSC s)))
      \<and> nmi (beatPAL s) = (InVBlank (reg (beatPAL s)) \<and> NMIenabled (reg (beatPAL s))))
   \<and> (VBlankState s \<noteq> 0 \<longrightarrow> nmi (beatNTSC s) = nmi s \<and> nmi (beatPAL s) = nmi s)"
proof -
  have "InVBlank (reg (beatNTSC s)) = InVBlank (reg (beat_head s))"
    by (simp add: InVBlank_def beatNTSC_tail bit_simps)
  moreover have "InVBlank (reg (beatPAL s)) = InVBlank (reg (beat_head s))"
    by (simp add: InVBlank_def beatPAL_tail)
  ultimately show ?thesis
    by (simp add: beatNTSC_tail beatPAL_tail beat_head_fields beat_head_InVBlank NMIenabled_def)
qed

theorem nmi_driven_at_rest_witness:
  "VBlankState power_on = 0 \<and> VBlankState vblank_entry \<noteq> 0
   \<and> nmi (beatNTSC power_on) = (InVBlank (reg power_on) \<and> NMIenabled (reg power_on))
   \<and> nmi (beatNTSC vblank_entry) = nmi vblank_entry"
proof -
  have v: "VBlankState power_on = 0" "VBlankState vblank_entry \<noteq> 0"
    by (simp_all add: vblank_entry_def power_on_def Power_def Initialize_def)
  from nmi_driven_at_rest [of power_on] nmi_driven_at_rest [of vblank_entry] v
  show ?thesis by simp
qed

text \<open>
  The claim as stated fails on the beat that starts with \<^verbatim>\<open>VBlankState = 2\<close>. With
  rendering off and NMI enabled from power-on, 262 \<open>\<times>\<close> 341 = 89342 beats bring the frame
  back to the entry of scanline 241, where \<^verbatim>\<open>VBlankState\<close> becomes 2. The next beat, the
  last of the 29781st \<^verbatim>\<open>Tick\<close>, sets InVBlank and does not write the line: InVBlank and
  NMIenabled are set and the line is low.
\<close>

theorem nmi_low_in_vblank:
  "InVBlank (reg ((Tick ^^ 29781) nmi_enabled_on))
   \<and> NMIenabled (reg ((Tick ^^ 29781) nmi_enabled_on))
   \<and> \<not> nmi ((Tick ^^ 29781) nmi_enabled_on)"
  by (simp add: InVBlank_def NMIenabled_def vblank_after_frame)

text \<open>
  C7, as amended. An NTSC beat on scanline 260, the last line of vertical blanking, with
  the column in 328..339 clears the sprite-0 hit flag. On every other beat, and on every
  PAL beat, a set flag stays set unless the beat starts with \<^verbatim>\<open>VBlankState = -5\<close>. Such
  a beat clears the whole status byte before its graphics work (\<open>pre_graphics\<close>), and off
  the rendered lines (scanline below 0 or from 240 on) the flag is clear after the beat.
  In a run \<^verbatim>\<open>VBlankState\<close> is -5 only at column 0 of the pre-render scanline, and the
  status byte is 0 after that beat.
\<close>

theorem SP0hit_cleared_on_line_260:
  "(scanline s = 260 \<and> 328 \<le> x s \<and> x s \<le> 339 \<longrightarrow> \<not> SP0hit (reg (beatNTSC s)))
   \<and> (\<not> (scanline s = 260 \<and> 328 \<le> x s \<and> x s \<le> 339) \<and> VBlankState s \<noteq> -5 \<and> SP0hit (reg s)
        \<longrightarrow> SP0hit (reg (beatNTSC s)))
   \<and> (VBlankState s \<noteq> -5 \<and> SP0hit (reg s) \<longrightarrow> SP0hit (reg (beatPAL s)))
   \<and> (VBlankState s = -5 \<longrightarrow> status (reg (pre_graphics s)) = 0)
   \<and> (VBlankState s = -5 \<and> (scanline s < 0 \<or> 240 \<le> scanline s) \<longrightarrow>
        \<not> SP0hit (reg (beatNTSC s)) \<and> \<not> SP0hit (reg (beatPAL s)))
   \<and> (reach s0 s \<and> VBlankState s = -5 \<longrightarrow>
        scanline s = -1 \<and> x s = 0 \<and> status (reg (beatNTSC s)) = 0 \<and> status (reg (beatPAL s)) = 0)"
proof -
  have old: "(scanline s = 260 \<and> 328 \<le> x s \<and> x s \<le> 339 \<longrightarrow> \<not> SP0hit (reg (beatNTSC s)))
   \<and> (\<not> (scanline s = 260 \<and> 328 \<le> x s \<and> x s \<le> 339) \<and> VBlankState s \<noteq> -5 \<and> SP0hit (reg s)
        \<longrightarrow> SP0hit (reg (beatNTSC s)))
   \<and> (VBlankState s \<noteq> -5 \<and> SP0hit (reg s) \<longrightarrow> SP0hit (reg (beatPAL s)))"
    using beat_head_SP0hit [of s]
    by (auto simp add: SP0hit_def beatNTSC_tail beatPAL_tail beat_head_fields bit_simps)
  have run: "scanline s = -1 \<and> x s = 0 \<and> status (reg (beatNTSC s)) = 0 \<and> status (reg (beatPAL s)) = 0"
    if "reach s0 s" "VBlankState s = -5"
  proof -
    from reach_wrap_view [OF that(1)] that(2) have at: "scanline s = -1" "x s = 0"
      by (simp_all add: wrap_view_def)
    with beat_wrap_status(4,5) [OF that(2)] show ?thesis
      by simp
  qed
  from old run beat_wrap_status(1,2,3) show ?thesis
    by blast
qed

theorem SP0hit_cleared_on_line_260_witness:
  "scanline line_260 = 260 \<and> 328 \<le> x line_260 \<and> x line_260 \<le> 339
   \<and> \<not> SP0hit (reg (beatNTSC line_260))
   \<and> VBlankState line_260 \<noteq> -5 \<and> SP0hit (reg line_260) \<and> SP0hit (reg (beatPAL line_260))
   \<and> VBlankState prerender_hit = -5 \<and> scanline prerender_hit < 0 \<and> SP0hit (reg prerender_hit)
   \<and> status (reg (pre_graphics prerender_hit)) = 0
   \<and> \<not> SP0hit (reg (beatNTSC prerender_hit)) \<and> \<not> SP0hit (reg (beatPAL prerender_hit))
   \<and> reach zero_ppu prerender_entry \<and> VBlankState prerender_entry = -5
   \<and> scanline prerender_entry = -1 \<and> x prerender_entry = 0
   \<and> status (reg (beatNTSC prerender_entry)) = 0 \<and> status (reg (beatPAL prerender_entry)) = 0"
proof -
  have l: "scanline line_260 = 260" "x line_260 = 328" "VBlankState line_260 \<noteq> -5"
    "SP0hit (reg line_260)"
    by (simp_all add: line_260_def power_on_def Power_def Initialize_def SP0hit_def)
  have h: "VBlankState prerender_hit = -5" "scanline prerender_hit < 0" "SP0hit (reg prerender_hit)"
    by (simp_all add: prerender_hit_def power_on_def Power_def Initialize_def SP0hit_def)
  from SP0hit_cleared_on_line_260 [of line_260] SP0hit_cleared_on_line_260 [of prerender_hit]
    SP0hit_cleared_on_line_260 [of prerender_entry zero_ppu] l h prerender_entry_fields
  show ?thesis by simp
qed

text \<open>
  The claim as stated fails: the window is on scanline 260, not on the pre-render
  scanline -1, so a beat outside the claimed window clears the flag.
\<close>

theorem SP0hit_cleared_outside_prerender:
  "scanline line_260 \<noteq> -1 \<and> SP0hit (reg line_260) \<and> \<not> SP0hit (reg (beatNTSC line_260))"
proof -
  have l: "scanline line_260 = 260" "x line_260 = 328" "VBlankState line_260 = 0"
    "status (reg line_260) = 0x40"
    by (simp_all add: line_260_def power_on_def Power_def Initialize_def)
  have "status (reg (beat_head line_260)) = 0x40"
    by (simp add: beat_head_def graphics_def pre_graphics_fields l)
  then have "\<not> SP0hit (reg (beatNTSC line_260))"
    by (simp add: SP0hit_def beatNTSC_tail beat_head_fields l bit_simps)
  with l show ?thesis
    by (simp add: SP0hit_def)
qed

text \<open>
  C8. The three swap-mask stages applied to \<^verbatim>\<open>low | (high << 8)\<close> give the 16-bit value
  whose bit \<open>2k\<close> is bit \<open>k\<close> of \<open>low\<close> and whose bit \<open>2k+1\<close> is bit \<open>k\<close> of \<open>high\<close>, for
  every \<open>k\<close> below 8; de-interleaving that value gives back the pair, and the two bits
  that \<^verbatim>\<open>render_pixel\<close> takes for pixel \<open>k\<close> are bit \<open>k\<close> of \<open>high\<close> over bit \<open>k\<close> of \<open>low\<close>.
\<close>

theorem swap_stages_interleave:
  fixes low high :: u8
  shows "(\<forall>k<8. bit (swap_stages (ucast low OR push_bit 8 (ucast high))) (2 * k) = bit low k
              \<and> bit (swap_stages (ucast low OR push_bit 8 (ucast high))) (2 * k + 1) = bit high k)
    \<and> (\<forall>n\<ge>16. \<not> bit (swap_stages (ucast low OR push_bit 8 (ucast high))) n)
    \<and> deinterleave (ucast (swap_stages (ucast low OR push_bit 8 (ucast high)))) = (low, high)
    \<and> (\<forall>k<8. pattern_pixel (ucast (swap_stages (ucast low OR push_bit 8 (ucast high)))) k
              = of_bool (bit low k) + 2 * of_bool (bit high k))"
proof -
  let ?p = "swap_stages (ucast low OR push_bit 8 (ucast high))"
  have "fst (deinterleave (ucast ?p)) = low"
    by (rule bit_word_eqI) (auto simp add: deinterleave_bits bit_simps swap_stages_alternate)
  moreover have "snd (deinterleave (ucast ?p)) = high"
    by (rule bit_word_eqI) (auto simp add: deinterleave_bits bit_simps swap_stages_alternate)
  ultimately have "deinterleave (ucast ?p) = (low, high)"
    by (simp add: prod_eq_iff)
  then show ?thesis
    by (simp add: swap_stages_alternate swap_stages_upper pattern_pixel_interleaved)
qed

theorem swap_stages_interleave_witness:
  "swap_stages (ucast (0xA5 :: u8) OR push_bit 8 (ucast (0x3C :: u8))) = 0x4EB1
   \<and> deinterleave 0x4EB1 = (0xA5, 0x3C) \<and> pattern_pixel 0x4EB1 5 = 3"
proof -
  have v: "swap_stages (ucast (0xA5 :: u8) OR push_bit 8 (ucast (0x3C :: u8))) = 0x4EB1"
    by (simp add: swap_stages_def)
  from swap_stages_interleave [of "0xA5" "0x3C"] v
  show ?thesis by simp
qed

text \<open>
  C9, as amended. The bounds \<^verbatim>\<open>sproutpos\<close> \<open>\<le>\<close> 8, \<^verbatim>\<open>sprrenpos\<close> \<open>\<le>\<close> 8 and \<^verbatim>\<open>sprinpos\<close> \<open>\<le>\<close> 64
  are kept by every operation of the fetch and evaluation pipelines and by every beat, and
  they hold in every state of a run of an object constructed within them (neither
  \<^verbatim>\<open>Initialize\<close> nor \<^verbatim>\<open>Power\<close> assigns the counters). \<^verbatim>\<open>sprrenpos\<close> is not bounded by
  \<^verbatim>\<open>sproutpos\<close>: the beat at column 0 of a rendered line resets \<^verbatim>\<open>sproutpos\<close> and leaves
  \<^verbatim>\<open>sprrenpos\<close>, which counts the sprites of the line being drawn.
\<close>

theorem sprite_counters_bounded:
  "(sprite_bounds t \<longrightarrow>
      sprite_bounds (fetch_phase t) \<and> sprite_bounds (sprite_evaluation t)
      \<and> sprite_bounds (rendering_tick t) \<and> sprite_bounds (beatNTSC t) \<and> sprite_bounds (beatPAL t)
      \<and> sprite_bounds (Tick t))
   \<and> (sprite_bounds s0 \<and> reach s0 s \<longrightarrow> sproutpos s \<le> 8 \<and> sprrenpos s \<le> 8 \<and> sprinpos s \<le> 64)
   \<and> (x t = 0 \<and> scanline t < 240 \<and> ShowBGSP (reg t) \<noteq> 0 \<longrightarrow>
        sproutpos (beatNTSC t) = 0 \<and> sprrenpos (beatNTSC t) = sprrenpos t
        \<and> sproutpos (beatPAL t) = 0 \<and> sprrenpos (beatPAL t) = sprrenpos t)"
proof -
  have "sproutpos s \<le> 8 \<and> sprrenpos s \<le> 8 \<and> sprinpos s \<le> 64" if "sprite_bounds s0" "reach s0 s"
    using reach_sprite_bounds [OF that(2) that(1)] by (simp add: sprite_bounds_def)
  then show ?thesis
    by (simp add: fetch_phase_bounds sprite_evaluation_bounds rendering_tick_bounds
        sprite_bounds_beat sprite_bounds_Tick beatNTSC_tail beatPAL_tail beat_head_line_start)
qed

theorem sprite_counters_bounded_witness:
  "sprite_bounds line_start \<and> sprite_bounds (beatNTSC line_start)
   \<and> x line_start = 0 \<and> scanline line_start < 240 \<and> ShowBGSP (reg line_start) \<noteq> 0
   \<and> sproutpos (beatNTSC line_start) = 0 \<and> sprrenpos (beatNTSC line_start) = sprrenpos line_start
   \<and> sprite_bounds zero_ppu \<and> reach zero_ppu second_line
   \<and> sproutpos second_line \<le> 8 \<and> sprrenpos second_line \<le> 8 \<and> sprinpos second_line \<le> 64"
proof -
  have b: "sprite_bounds line_start" "sprite_bounds zero_ppu"
    using line_start_view by (simp_all add: sprite_bounds_def line_view_def zero_ppu_def)
  have l: "x line_start = 0 \<and> scanline line_start < 240 \<and> ShowBGSP (reg line_start) \<noteq> 0"
    using line_start_view by (simp add: line_view_def ShowBGSP_def ShowBG_def ShowSP_def)
  from sprite_counters_bounded [of line_start zero_ppu second_line] b reach_second_line l
  show ?thesis by simp
qed

text \<open>
  The claim as stated fails in a run from power-on: 2469 calls of \<^verbatim>\<open>Tick\<close>, a write of
  0x18 to port 1 and 32 more calls of \<^verbatim>\<open>Tick\<close>. Scanline 0 has one sprite in range, and
  one beat into scanline 1 \<^verbatim>\<open>sprrenpos\<close> is 1 and \<^verbatim>\<open>sproutpos\<close> is 0.
\<close>

theorem sprrenpos_exceeds_sproutpos:
  "spec_sprite_bounds zero_ppu \<and> reach zero_ppu second_line
   \<and> sproutpos second_line = 0 \<and> sprrenpos second_line = 1
   \<and> \<not> spec_sprite_bounds second_line"
proof -
  have "spec_sprite_bounds zero_ppu"
    by (simp add: spec_sprite_bounds_def zero_ppu_def)
  then show ?thesis
    by (simp add: spec_sprite_bounds_def [of second_line] reach_second_line second_line_counters)
qed

text \<open>
  C10. A write of \<open>b\<close> to port 2 changes nothing but the open-bus latch, which becomes
  \<open>b\<close>, and its decay timer, which is reset to 77777.
\<close>

theorem Write_status_port_frame:
  "address AND 0x7 = 2 \<Longrightarrow> Write address b s = s\<lparr>open_bus := b, open_bus_decay_timer := 77777\<rparr>"
  by (simp add: Write_def RefreshOpenBus_def Let_def)

theorem Write_status_port_frame_witness:
  "(0x2002 :: u16) AND 0x7 = 2
    \<and> Write 0x2002 0xAB power_on = power_on\<lparr>open_bus := 0xAB, open_bus_decay_timer := 77777\<rparr>"
  using Write_status_port_frame [of "0x2002" "0xAB" power_on]
  by simp

end
